theory Spec2Isabelle
  imports Main "HOL-Library.AList"
begin

section \<open>Python values, strings and exceptions\<close>

text \<open>
  A Python \<^verbatim>\<open>str\<close> is a sequence of Unicode code points, and \<^verbatim>\<open>len\<close> counts code
  points, so a string is a list of code point numbers. \<open>ustr\<close> embeds an ASCII literal.
\<close>

type_synonym ustring = "nat list"

definition ustr :: "string \<Rightarrow> ustring" where
  "ustr s = map of_char s"

datatype pyval = PyNone | PyInt int | PyStr ustring

text \<open>
  The exceptions the program raises or catches. A \<^verbatim>\<open>ValueError\<close> carries its message.
\<close>

datatype py_error = ValueError ustring | KeyError | IndexError | OverflowError

subsection \<open>Unicode digits\<close>

text \<open>
  \<^verbatim>\<open>str.isdigit\<close> and the regular expression class \<^verbatim>\<open>\d\<close> follow the Unicode character
  database (version 14.0.0, the one of CPython 3.11). The decimal digits (category Nd) come
  in runs of ten, listed by the code point of their zero; \<^verbatim>\<open>isdigit\<close> also accepts the
  characters of numeric type Digit (superscripts, circled digits and the like).
\<close>

definition decimal_zeros :: "nat list" where
  "decimal_zeros =
    [48, 1632, 1776, 1984, 2406, 2534, 2662, 2790, 2918, 3046, 3174, 3302, 3430, 3558,
     3664, 3792, 3872, 4160, 4240, 6112, 6160, 6470, 6608, 6784, 6800, 6992, 7088, 7232,
     7248, 42528, 43216, 43264, 43472, 43504, 43600, 44016, 65296, 66720, 68912, 69734,
     69872, 69942, 70096, 70384, 70736, 70864, 71248, 71360, 71472, 71904, 72016, 72784,
     73040, 73120, 92768, 92864, 93008, 120782, 120792, 120802, 120812, 120822, 123200,
     123632, 125264, 130032]"

definition other_digit_ranges :: "(nat \<times> nat) list" where
  "other_digit_ranges =
    [(178, 179), (185, 185), (4969, 4977), (6618, 6618), (8304, 8304), (8308, 8313),
     (8320, 8329), (9312, 9320), (9332, 9340), (9352, 9360), (9450, 9450), (9461, 9469),
     (9471, 9471), (10102, 10110), (10112, 10120), (10122, 10130), (68160, 68163),
     (69216, 69224), (69714, 69722), (127232, 127242)]"

definition isdecimal_cp :: "nat \<Rightarrow> bool" where
  "isdecimal_cp c = list_ex (\<lambda>z. z \<le> c \<and> c < z + 10) decimal_zeros"

definition decimal_value :: "nat \<Rightarrow> nat" where
  "decimal_value c =
     (case List.find (\<lambda>z. z \<le> c \<and> c < z + 10) decimal_zeros of
        None \<Rightarrow> 0
      | Some z \<Rightarrow> c - z)"

definition isdigit_cp :: "nat \<Rightarrow> bool" where
  "isdigit_cp c =
     (isdecimal_cp c \<or> list_ex (\<lambda>(lo, hi). lo \<le> c \<and> c \<le> hi) other_digit_ranges)"

text \<open>\<^verbatim>\<open>s.isdigit()\<close>: at least one character, and every character is a digit.\<close>

definition str_isdigit :: "ustring \<Rightarrow> bool" where
  "str_isdigit s = (s \<noteq> [] \<and> list_all isdigit_cp s)"

text \<open>The spec's notion: the ten ASCII digits \<^verbatim>\<open>0\<close> to \<^verbatim>\<open>9\<close>.\<close>

definition ascii_digit :: "nat \<Rightarrow> bool" where
  "ascii_digit c = (48 \<le> c \<and> c \<le> 57)"

text \<open>\<^verbatim>\<open>sep.join(xs)\<close>\<close>

fun str_join :: "ustring \<Rightarrow> ustring list \<Rightarrow> ustring" where
  "str_join sep [] = []"
| "str_join sep [x] = x"
| "str_join sep (x # y # ys) = x @ sep @ str_join sep (y # ys)"

section \<open>Fields\<close>

datatype Name = Name (name_value: ustring)

datatype Phone = Phone (phone_value: ustring)

text \<open>
  \<^verbatim>\<open>Phone.__init__\<close>: the three tests of the source in their order; a value that is not
  a \<^verbatim>\<open>str\<close> fails the first one.
\<close>

fun Phone_init :: "pyval \<Rightarrow> py_error + Phone" where
  "Phone_init (PyStr s) =
     (if \<not> str_isdigit s \<or> length s \<noteq> 10
      then Inl (ValueError (ustr ''Phone number must be a string containing exactly 10 digits.''))
      else Inr (Phone s))"
| "Phone_init v =
     Inl (ValueError (ustr ''Phone number must be a string containing exactly 10 digits.''))"

text \<open>\<^verbatim>\<open>Field.__str__\<close> on a Phone: \<^verbatim>\<open>str(self.value)\<close>, the wrapped string.\<close>

definition Phone_str :: "Phone \<Rightarrow> ustring" where
  "Phone_str p = phone_value p"

section \<open>Calendar dates\<close>

text \<open>
  \<^verbatim>\<open>datetime.date\<close>: the proleptic Gregorian calendar, years 1 to 9999. A Birthday wraps
  the \<^verbatim>\<open>datetime\<close> that \<^verbatim>\<open>strptime\<close> returns; its format has no time directive, so the
  time of day is always midnight and only the date is kept.
\<close>

record date =
  year :: nat
  month :: nat
  day :: nat

definition is_leap :: "nat \<Rightarrow> bool" where
  "is_leap y = (y mod 4 = 0 \<and> (y mod 100 \<noteq> 0 \<or> y mod 400 = 0))"

definition days_in_month :: "nat \<Rightarrow> nat \<Rightarrow> nat" where
  "days_in_month y m =
     (if m = 2 then (if is_leap y then 29 else 28)
      else if m = 4 \<or> m = 6 \<or> m = 9 \<or> m = 11 then 30 else 31)"

definition valid_date :: "date \<Rightarrow> bool" where
  "valid_date d =
     (1 \<le> year d \<and> year d \<le> 9999 \<and> 1 \<le> month d \<and> month d \<le> 12 \<and>
      1 \<le> day d \<and> day d \<le> days_in_month (year d) (month d))"

datatype Birthday = Birthday (birthday_value: date)

text \<open>Decimal numerals: two digits zero-filled (\<^verbatim>\<open>%d\<close>, \<^verbatim>\<open>%m\<close>), and plain.\<close>

definition dec2 :: "nat \<Rightarrow> ustring" where
  "dec2 n = [48 + n div 10 mod 10, 48 + n mod 10]"

fun dec :: "nat \<Rightarrow> ustring" where
  "dec n = (if n < 10 then [48 + n] else dec (n div 10) @ [48 + n mod 10])"

declare dec.simps [simp del]

text \<open>
  The date constructor (\<^verbatim>\<open>check_date_args\<close>): a \<^verbatim>\<open>ValueError\<close> for a year, month or
  day out of range, tested in this order.
\<close>

definition new_date :: "nat \<Rightarrow> nat \<Rightarrow> nat \<Rightarrow> py_error + date" where
  "new_date y m d =
     (if y < 1 \<or> 9999 < y
      then Inl (ValueError (ustr ''year '' @ dec y @ ustr '' is out of range''))
      else if m < 1 \<or> 12 < m then Inl (ValueError (ustr ''month must be in 1..12''))
      else if d < 1 \<or> days_in_month y m < d
      then Inl (ValueError (ustr ''day is out of range for month''))
      else Inr \<lparr>year = y, month = m, day = d\<rparr>)"

text \<open>\<^verbatim>\<open>d.replace(year=y)\<close> builds a new date from the new year and the old month and day.\<close>

definition date_replace_year :: "date \<Rightarrow> nat \<Rightarrow> py_error + date" where
  "date_replace_year d y = new_date y (month d) (day d)"

text \<open>Dates compare as (year, month, day) triples.\<close>

definition date_lt :: "date \<Rightarrow> date \<Rightarrow> bool" where
  "date_lt a b =
     (year a < year b \<or>
      (year a = year b \<and> (month a < month b \<or> (month a = month b \<and> day a < day b))))"

text \<open>
  The proleptic Gregorian ordinal (\<^verbatim>\<open>toordinal\<close>, 1 for 0001-01-01), the difference of
  two dates in days and the day of the week (Monday is 0, Sunday is 6).
\<close>

definition days_before_year :: "nat \<Rightarrow> nat" where
  "days_before_year y = (y - 1) * 365 + (y - 1) div 4 - (y - 1) div 100 + (y - 1) div 400"

definition days_before_month :: "nat \<Rightarrow> nat \<Rightarrow> nat" where
  "days_before_month y m =
     [0, 0, 31, 59, 90, 120, 151, 181, 212, 243, 273, 304, 334] ! m +
     (if 2 < m \<and> is_leap y then 1 else 0)"

definition toordinal :: "date \<Rightarrow> nat" where
  "toordinal d = days_before_year (year d) + days_before_month (year d) (month d) + day d"

definition date_diff_days :: "date \<Rightarrow> date \<Rightarrow> int" where
  "date_diff_days a b = int (toordinal a) - int (toordinal b)"

definition weekday :: "date \<Rightarrow> nat" where
  "weekday d = (toordinal d + 6) mod 7"

text \<open>
  \<^verbatim>\<open>d + timedelta(days=k)\<close> for \<open>k \<ge> 0\<close>: \<open>k\<close> steps to the next calendar day, with
  \<^verbatim>\<open>OverflowError\<close> past 9999-12-31.
\<close>

definition succ_day :: "date \<Rightarrow> date" where
  "succ_day d =
     (if day d < days_in_month (year d) (month d) then d\<lparr>day := day d + 1\<rparr>
      else if month d < 12 then d\<lparr>month := month d + 1, day := 1\<rparr>
      else \<lparr>year = year d + 1, month = 1, day = 1\<rparr>)"

definition next_day :: "date \<Rightarrow> py_error + date" where
  "next_day d =
     (if year (succ_day d) \<le> 9999 then Inr (succ_day d) else Inl OverflowError)"

fun date_add_days :: "date \<Rightarrow> nat \<Rightarrow> py_error + date" where
  "date_add_days d 0 = Inr d"
| "date_add_days d (Suc k) =
     (case next_day d of Inl e \<Rightarrow> Inl e | Inr d' \<Rightarrow> date_add_days d' k)"

text \<open>
  \<^verbatim>\<open>strftime("%d.%m.%Y")\<close>. The day and the month are zero-filled to two digits; the
  year is printed by the C library, which on glibc does not zero-fill a year below 1000.
\<close>

definition strftime :: "date \<Rightarrow> ustring" where
  "strftime d = dec2 (day d) @ [46] @ dec2 (month d) @ [46] @ dec (year d)"

subsection \<open>Parsing with strptime\<close>

text \<open>
  \<^verbatim>\<open>datetime.strptime(value, "%d.%m.%Y")\<close> compiles the format to the regular expression
  \<^verbatim>\<open>(?P<d>3[0-1]|[1-2]\d|0[1-9]|[1-9]| [1-9])\.(?P<m>1[0-2]|0[1-9]|[1-9])\.(?P<Y>\d\d\d\d)\<close>,
  matches it at the start of the string and rejects a match that leaves text over.
  \<open>rmatch\<close> is the backtracking matcher: the remainders of the input after each way the
  expression matches a prefix, in the order the alternatives are tried.
\<close>

datatype regex = Lit nat | Cls nat nat | AnyDigit | Cat regex regex | Or regex regex

fun rmatch :: "regex \<Rightarrow> ustring \<Rightarrow> ustring list" where
  "rmatch (Lit c) s = (case s of [] \<Rightarrow> [] | x # r \<Rightarrow> if x = c then [r] else [])"
| "rmatch (Cls lo hi) s = (case s of [] \<Rightarrow> [] | x # r \<Rightarrow> if lo \<le> x \<and> x \<le> hi then [r] else [])"
| "rmatch AnyDigit s = (case s of [] \<Rightarrow> [] | x # r \<Rightarrow> if isdecimal_cp x then [r] else [])"
| "rmatch (Cat p q) s = concat (map (rmatch q) (rmatch p s))"
| "rmatch (Or p q) s = rmatch p s @ rmatch q s"

definition re_d :: regex where
  "re_d = Or (Cat (Lit 51) (Cls 48 49))
         (Or (Cat (Cls 49 50) AnyDigit)
         (Or (Cat (Lit 48) (Cls 49 57))
         (Or (Cls 49 57)
             (Cat (Lit 32) (Cls 49 57)))))"

definition re_m :: regex where
  "re_m = Or (Cat (Lit 49) (Cls 48 50)) (Or (Cat (Lit 48) (Cls 49 57)) (Cls 49 57))"

definition re_Y :: regex where
  "re_Y = Cat AnyDigit (Cat AnyDigit (Cat AnyDigit AnyDigit))"

text \<open>The matches as (day text, month text, year text, unconverted rest).\<close>

definition strptime_found :: "ustring \<Rightarrow> (ustring \<times> ustring \<times> ustring \<times> ustring) list" where
  "strptime_found s =
     [(take (length s - length r1) s, take (length r2 - length r3) r2,
       take (length r4 - length r5) r4, r5).
        r1 \<leftarrow> rmatch re_d s, r2 \<leftarrow> rmatch (Lit 46) r1, r3 \<leftarrow> rmatch re_m r2,
        r4 \<leftarrow> rmatch (Lit 46) r3, r5 \<leftarrow> rmatch re_Y r4]"

text \<open>\<^verbatim>\<open>int(text)\<close> on a matched group: decimal digits, after an optional leading blank.\<close>

definition py_int :: "ustring \<Rightarrow> nat" where
  "py_int s = foldl (\<lambda>acc c. acc * 10 + decimal_value c) 0 (dropWhile (\<lambda>c. c = 32) s)"

text \<open>
  Every failure of \<^verbatim>\<open>strptime\<close> on a string is a \<^verbatim>\<open>ValueError\<close> (no match, unconverted
  data, or a date that does not exist); its only caller replaces the message, so the
  failure is \<open>None\<close> here. The argument is a string, as every value the command loop
  passes is.
\<close>

definition strptime :: "ustring \<Rightarrow> date option" where
  "strptime s =
     (case strptime_found s of
        [] \<Rightarrow> None
      | (d, m, y, rest) # other \<Rightarrow>
          if rest \<noteq> [] then None
          else (case new_date (py_int y) (py_int m) (py_int d) of
                  Inl e \<Rightarrow> None
                | Inr dt \<Rightarrow> Some dt))"

definition Birthday_init :: "ustring \<Rightarrow> py_error + Birthday" where
  "Birthday_init v =
     (case strptime v of
        None \<Rightarrow> Inl (ValueError (ustr ''Invalid date format. Use DD.MM.YYYY''))
      | Some datetime_obj \<Rightarrow> Inr (Birthday datetime_obj))"

definition Birthday_str :: "Birthday \<Rightarrow> ustring" where
  "Birthday_str b = strftime (birthday_value b)"

section \<open>Record\<close>

record Record =
  name :: Name
  phones :: "Phone list"
  birthday :: "Birthday option"

definition Record_init :: "ustring \<Rightarrow> Record" where
  "Record_init n = \<lparr>name = Name n, phones = [], birthday = None\<rparr>"

text \<open>
  The methods mutate the record and may raise: each returns the outcome (\<open>Inl\<close> the
  exception) together with the record as it is after the call.
\<close>

definition add_phone :: "Record \<Rightarrow> ustring \<Rightarrow> (py_error + unit) \<times> Record" where
  "add_phone r phone =
     (case Phone_init (PyStr phone) of
        Inl e \<Rightarrow> (Inl e, r)
      | Inr p \<Rightarrow> (Inr (), r\<lparr>phones := phones r @ [p]\<rparr>))"

fun find_phone_loop :: "Phone list \<Rightarrow> ustring \<Rightarrow> Phone option" where
  "find_phone_loop [] phone_number = None"
| "find_phone_loop (phone # rest) phone_number =
     (if phone_value phone = phone_number then Some phone
      else find_phone_loop rest phone_number)"

definition find_phone :: "Record \<Rightarrow> ustring \<Rightarrow> Phone option" where
  "find_phone r phone_number = find_phone_loop (phones r) phone_number"

text \<open>
  \<^verbatim>\<open>remove_phone\<close>: the loop runs over the phones still to visit; at the first one whose
  value matches, \<^verbatim>\<open>self.phones.remove(p)\<close> takes the first element equal to \<open>p\<close> out
  of the whole list and the method returns.
\<close>

fun remove_phone_loop :: "Phone list \<Rightarrow> Phone list \<Rightarrow> ustring \<Rightarrow> (py_error + unit) \<times> Phone list" where
  "remove_phone_loop ps [] phone = (Inl (ValueError (ustr ''Phone number not found.'')), ps)"
| "remove_phone_loop ps (p # rest) phone =
     (if phone_value p = phone then (Inr (), remove1 p ps)
      else remove_phone_loop ps rest phone)"

definition remove_phone :: "Record \<Rightarrow> ustring \<Rightarrow> (py_error + unit) \<times> Record" where
  "remove_phone r phone =
     (case remove_phone_loop (phones r) (phones r) phone of
        (res, ps') \<Rightarrow> (res, r\<lparr>phones := ps'\<rparr>))"

definition edit_phone :: "Record \<Rightarrow> ustring \<Rightarrow> ustring \<Rightarrow> (py_error + unit) \<times> Record" where
  "edit_phone r old_phone new_phone =
     (case find_phone r old_phone of
        None \<Rightarrow> (Inl (ValueError (ustr ''Old phone number not found.'')), r)
      | Some old_phone_obj \<Rightarrow>
          (case Phone_init (PyStr new_phone) of
             Inl (ValueError e) \<Rightarrow>
               (Inl (ValueError (ustr ''Invalid new phone number: '' @ e)), r)
           | Inl e \<Rightarrow> (Inl e, r)
           | Inr new_phone_obj \<Rightarrow>
               (case remove_phone r old_phone of
                  (Inl e, r') \<Rightarrow> (Inl e, r')
                | (Inr u, r') \<Rightarrow> (Inr (), r'\<lparr>phones := phones r' @ [new_phone_obj]\<rparr>))))"

definition Record_add_birthday :: "Record \<Rightarrow> ustring \<Rightarrow> (py_error + unit) \<times> Record" where
  "Record_add_birthday r v =
     (case Birthday_init v of
        Inl e \<Rightarrow> (Inl e, r)
      | Inr b \<Rightarrow> (Inr (), r\<lparr>birthday := Some b\<rparr>))"

section \<open>AddressBook\<close>

text \<open>
  The \<^verbatim>\<open>UserDict\<close> data: a Python dict keeps its keys unique and in insertion order, so
  the book is an association list. Assigning to a present key replaces the value in
  place, assigning to a new key appends (\<open>AList.update\<close>).
\<close>

type_synonym AddressBook = "(ustring \<times> Record) list"

definition add_record :: "AddressBook \<Rightarrow> Record \<Rightarrow> AddressBook" where
  "add_record book record = AList.update (name_value (name record)) record book"

definition find_record :: "AddressBook \<Rightarrow> ustring \<Rightarrow> Record option" where
  "find_record book n = map_of book n"

text \<open>\<^verbatim>\<open>del d[k]\<close> raises \<^verbatim>\<open>KeyError\<close> on a missing key.\<close>

definition dict_delitem :: "AddressBook \<Rightarrow> ustring \<Rightarrow> py_error + AddressBook" where
  "dict_delitem book n =
     (if n \<in> fst ` set book then Inr (AList.delete n book) else Inl KeyError)"

definition delete_record :: "AddressBook \<Rightarrow> ustring \<Rightarrow> py_error + AddressBook" where
  "delete_record book n =
     (if n \<in> fst ` set book then dict_delitem book n else Inr book)"


section \<open>The birthday-window calculator\<close>

text \<open>
  \<^verbatim>\<open>datetime.today().date()\<close> reads the clock; the current date is the parameter
  \<open>today\<close>. An element of the result is the pair of the \<^verbatim>\<open>"name"\<close> and the
  \<^verbatim>\<open>"congratulation_date"\<close> entries of the source's dict.

  \<open>upcoming_entry\<close> is the body of the loop for one record that has a birthday: an
  exception, nothing to append, or the element to append.
\<close>

definition upcoming_entry :: "date \<Rightarrow> Record \<Rightarrow> Birthday \<Rightarrow> py_error + (ustring \<times> ustring) option" where
  "upcoming_entry today record b =
     (case date_replace_year (birthday_value b) (year today) of
        Inl e \<Rightarrow> Inl e
      | Inr this_year \<Rightarrow>
          (case (if date_lt this_year today
                 then date_replace_year this_year (year today + 1)
                 else Inr this_year) of
             Inl e \<Rightarrow> Inl e
           | Inr birthday_this_year \<Rightarrow>
               if date_diff_days birthday_this_year today \<le> 7
               then (case (if 5 \<le> weekday birthday_this_year
                           then date_add_days birthday_this_year
                                  (7 - weekday birthday_this_year)
                           else Inr birthday_this_year) of
                       Inl e \<Rightarrow> Inl e
                     | Inr congratulation_date \<Rightarrow>
                         Inr (Some (name_value (name record), strftime congratulation_date)))
               else Inr None))"

fun upcoming_loop ::
  "date \<Rightarrow> (ustring \<times> Record) list \<Rightarrow> (ustring \<times> ustring) list \<Rightarrow>
   py_error + (ustring \<times> ustring) list" where
  "upcoming_loop today [] upcoming_birthdays = Inr upcoming_birthdays"
| "upcoming_loop today ((k, record) # rest) upcoming_birthdays =
     (case birthday record of
        None \<Rightarrow> upcoming_loop today rest upcoming_birthdays
      | Some b \<Rightarrow>
          (case upcoming_entry today record b of
             Inl e \<Rightarrow> Inl e
           | Inr None \<Rightarrow> upcoming_loop today rest upcoming_birthdays
           | Inr (Some entry) \<Rightarrow> upcoming_loop today rest (upcoming_birthdays @ [entry])))"

definition get_upcoming_birthdays :: "AddressBook \<Rightarrow> date \<Rightarrow> py_error + (ustring \<times> ustring) list" where
  "get_upcoming_birthdays book today = upcoming_loop today book []"

section \<open>Command handlers\<close>

text \<open>
  A handler returns a Python value (a string or \<^verbatim>\<open>None\<close>) or raises, and leaves the
  book as it is after the call. A record found in the book is the stored object itself,
  so its mutation is a mutation of the book's entry under the looked-up name.

  \<open>input_error\<close> is the decorator: it turns the three exceptions it catches into their
  messages and lets everything else through.
\<close>

definition input_error ::
  "('a \<Rightarrow> AddressBook \<Rightarrow> (py_error + pyval) \<times> AddressBook) \<Rightarrow>
   'a \<Rightarrow> AddressBook \<Rightarrow> (py_error + pyval) \<times> AddressBook" where
  "input_error func args book =
     (case func args book of
        (Inl (ValueError msg), book') \<Rightarrow> (Inr (PyStr (ustr ''Give me name and phone please.'')), book')
      | (Inl KeyError, book') \<Rightarrow> (Inr (PyStr (ustr ''Contact not found.'')), book')
      | (Inl IndexError, book') \<Rightarrow>
          (Inr (PyStr (ustr ''Invalid command format. Use: [command] [name] [phone]'')), book')
      | (res, book') \<Rightarrow> (res, book'))"

definition add_contact_func :: "ustring list \<Rightarrow> AddressBook \<Rightarrow> (py_error + pyval) \<times> AddressBook" where
  "add_contact_func args book =
     (case args of
        [n, phone] \<Rightarrow>
          (case find_record book n of
             Some record \<Rightarrow>
               (case add_phone record phone of
                  (Inl e, record') \<Rightarrow> (Inl e, AList.update n record' book)
                | (Inr u, record') \<Rightarrow>
                    (Inr (PyStr (ustr ''Phone added to existing contact.'')),
                     AList.update n record' book))
           | None \<Rightarrow>
               (case add_phone (Record_init n) phone of
                  (Inl e, record') \<Rightarrow> (Inl e, book)
                | (Inr u, record') \<Rightarrow>
                    (Inr (PyStr (ustr ''New contact added.'')), add_record book record')))
      | _ \<Rightarrow> (Inr PyNone, book))"

definition add_contact :: "ustring list \<Rightarrow> AddressBook \<Rightarrow> (py_error + pyval) \<times> AddressBook" where
  "add_contact = input_error add_contact_func"

definition change_contact_func :: "ustring list \<Rightarrow> AddressBook \<Rightarrow> (py_error + pyval) \<times> AddressBook" where
  "change_contact_func args book =
     (case args of
        [n, old_phone, new_phone] \<Rightarrow>
          (case find_record book n of
             Some record \<Rightarrow>
               (case edit_phone record old_phone new_phone of
                  (Inl e, record') \<Rightarrow> (Inl e, AList.update n record' book)
                | (Inr u, record') \<Rightarrow>
                    (Inr (PyStr (ustr ''Contact updated.'')), AList.update n record' book))
           | None \<Rightarrow> (Inr (PyStr (ustr ''Contact not found.'')), book))
      | _ \<Rightarrow> (Inr PyNone, book))"

definition change_contact :: "ustring list \<Rightarrow> AddressBook \<Rightarrow> (py_error + pyval) \<times> AddressBook" where
  "change_contact = input_error change_contact_func"

definition show_phone_func :: "ustring list \<Rightarrow> AddressBook \<Rightarrow> (py_error + pyval) \<times> AddressBook" where
  "show_phone_func args book =
     (case args of
        [n] \<Rightarrow>
          (case find_record book n of
             Some record \<Rightarrow> (Inr (PyStr (str_join [10] (map Phone_str (phones record)))), book)
           | None \<Rightarrow> (Inr PyNone, book))
      | _ \<Rightarrow> (Inr PyNone, book))"

definition show_phone :: "ustring list \<Rightarrow> AddressBook \<Rightarrow> (py_error + pyval) \<times> AddressBook" where
  "show_phone = input_error show_phone_func"

definition add_birthday_func :: "ustring list \<Rightarrow> AddressBook \<Rightarrow> (py_error + pyval) \<times> AddressBook" where
  "add_birthday_func args book =
     (case args of
        [n, bday] \<Rightarrow>
          (case find_record book n of
             Some record \<Rightarrow>
               (case Record_add_birthday record bday of
                  (Inl e, record') \<Rightarrow> (Inl e, AList.update n record' book)
                | (Inr u, record') \<Rightarrow>
                    (Inr (PyStr (ustr ''Birthday added.'')), AList.update n record' book))
           | None \<Rightarrow> (Inr (PyStr (ustr ''Contact not found.'')), book))
      | _ \<Rightarrow> (Inr PyNone, book))"

definition add_birthday :: "ustring list \<Rightarrow> AddressBook \<Rightarrow> (py_error + pyval) \<times> AddressBook" where
  "add_birthday = input_error add_birthday_func"

definition show_birthday_func :: "ustring list \<Rightarrow> AddressBook \<Rightarrow> (py_error + pyval) \<times> AddressBook" where
  "show_birthday_func args book =
     (case args of
        [n] \<Rightarrow>
          (case find_record book n of
             Some record \<Rightarrow>
               (case birthday record of
                  Some b \<Rightarrow> (Inr (PyStr (Birthday_str b)), book)
                | None \<Rightarrow> (Inr (PyStr (ustr ''Birthday not found.'')), book))
           | None \<Rightarrow> (Inr (PyStr (ustr ''Birthday not found.'')), book))
      | _ \<Rightarrow> (Inr PyNone, book))"

definition show_birthday :: "ustring list \<Rightarrow> AddressBook \<Rightarrow> (py_error + pyval) \<times> AddressBook" where
  "show_birthday = input_error show_birthday_func"

section \<open>The birthday window in the words of the specification\<close>

text \<open>
  The next occurrence of a birthday: its month and day in today's year, or in the next
  year if that date is before today.
\<close>

definition next_occurrence :: "date \<Rightarrow> date \<Rightarrow> date" where
  "next_occurrence today b =
     (if date_lt (b\<lparr>year := year today\<rparr>) today then b\<lparr>year := year today + 1\<rparr>
      else b\<lparr>year := year today\<rparr>)"

text \<open>
  The following Monday: the first day after \<open>d\<close> that is a Monday, searched among the
  seven days after \<open>d\<close>.
\<close>

fun monday_search :: "nat \<Rightarrow> date \<Rightarrow> date" where
  "monday_search 0 d = d"
| "monday_search (Suc n) d = (if weekday d = 0 then d else monday_search n (succ_day d))"

definition following_monday :: "date \<Rightarrow> date" where
  "following_monday d = monday_search 7 (succ_day d)"

text \<open>The congratulation date: the following Monday for a Saturday or a Sunday.\<close>

definition congratulation :: "date \<Rightarrow> date" where
  "congratulation d = (if weekday d = 5 \<or> weekday d = 6 then following_monday d else d)"

text \<open>
  The report: in the order of the book, every record with a birthday whose next
  occurrence is at most 7 days from today, with its formatted congratulation date.
\<close>

definition upcoming_spec :: "AddressBook \<Rightarrow> date \<Rightarrow> (ustring \<times> ustring) list" where
  "upcoming_spec book today =
     List.map_filter
       (\<lambda>(k, r). case birthday r of
            None \<Rightarrow> None
          | Some b \<Rightarrow>
              if date_diff_days (next_occurrence today (birthday_value b)) today \<le> 7
              then Some (name_value (name r),
                         strftime (congratulation (next_occurrence today (birthday_value b))))
              else None)
       book"

text \<open>
  The month and day of \<open>b\<close> exist as a date in the year \<open>y\<close>; and the year substitutions
  of the calculator succeed for the birthday \<open>b\<close>: it exists in today's year and, if that
  date is before today, in the next year.
\<close>

definition occurs_in_year :: "date \<Rightarrow> nat \<Rightarrow> bool" where
  "occurs_in_year b y =
     (1 \<le> y \<and> y \<le> 9999 \<and> 1 \<le> month b \<and> month b \<le> 12 \<and>
      1 \<le> day b \<and> day b \<le> days_in_month y (month b))"

definition substitutable :: "date \<Rightarrow> date \<Rightarrow> bool" where
  "substitutable today b =
     (occurs_in_year b (year today) \<and>
      (if date_lt (b\<lparr>year := year today\<rparr>) today then occurs_in_year b (year today + 1)
       else True))"

text \<open>Every birthday stored in the book admits the year substitutions.\<close>

definition book_substitutable :: "date \<Rightarrow> AddressBook \<Rightarrow> bool" where
  "book_substitutable today book =
     list_all (\<lambda>(k, r). case birthday r of None \<Rightarrow> True
                         | Some b \<Rightarrow> substitutable today (birthday_value b)) book"

text \<open>
  The two-digit days and months that the regular expression accepts, by their digits:
  \<^verbatim>\<open>3[0-1]|[1-2]\d|0[1-9]\<close> and \<^verbatim>\<open>1[0-2]|0[1-9]\<close>.
\<close>

definition day_digits :: "nat \<Rightarrow> nat \<Rightarrow> bool" where
  "day_digits x1 x2 = ((x1 = 3 \<and> x2 \<le> 1) \<or> x1 = 1 \<or> x1 = 2 \<or> (x1 = 0 \<and> 1 \<le> x2))"

definition month_digits :: "nat \<Rightarrow> nat \<Rightarrow> bool" where
  "month_digits x1 x2 = ((x1 = 1 \<and> x2 \<le> 2) \<or> (x1 = 0 \<and> 1 \<le> x2))"

text \<open>
  The shape \<^verbatim>\<open>DD.MM.YYYY\<close> of the specification: two ASCII digits, a dot, two ASCII
  digits, a dot and four ASCII digits.
\<close>

fun dd_mm_yyyy :: "ustring \<Rightarrow> bool" where
  "dd_mm_yyyy [d1, d2, p, m1, m2, q, y1, y2, y3, y4] =
     (p = 46 \<and> q = 46 \<and> list_all ascii_digit [d1, d2, m1, m2, y1, y2, y3, y4])"
| "dd_mm_yyyy s = False"

section \<open>AddressBook: find, add_record, delete\<close>

lemma find_record_absent: "n \<notin> fst ` set book \<Longrightarrow> find_record book n = None"
  by (simp add: find_record_def map_of_eq_None_iff)

lemma find_add_record: "find_record (add_record book r) (name_value (name r)) = Some r"
  by (simp add: find_record_def add_record_def update_conv')

lemma find_add_record_other:
  "m \<noteq> name_value (name r) \<Longrightarrow> find_record (add_record book r) m = find_record book m"
  by (simp add: find_record_def add_record_def update_conv')

lemma delete_record_present:
  "n \<in> fst ` set book \<Longrightarrow> delete_record book n = Inr (AList.delete n book)"
  by (simp add: delete_record_def dict_delitem_def)

lemma find_after_delete:
  "find_record (AList.delete n book) m = (if m = n then None else find_record book m)"
  by (simp add: find_record_def delete_conv')

text \<open>
  Claim C8. In every address book, \<open>find\<close> of a name that keys no record is none; after
  \<open>add_record r\<close>, \<open>find\<close> of the name of \<open>r\<close> is exactly \<open>r\<close>, and the other names are
  looked up as before; \<open>delete\<close> of a present name raises nothing and leaves a book
  in which that name is absent and every other name is looked up as before; \<open>delete\<close>
  of an absent name raises nothing and leaves the book as it is.
\<close>

theorem addressbook_find_add_delete:
  "(n \<notin> fst ` set book \<longrightarrow> find_record book n = None) \<and>
   find_record (add_record book r) (name_value (name r)) = Some r \<and>
   (m \<noteq> name_value (name r) \<longrightarrow> find_record (add_record book r) m = find_record book m) \<and>
   (n \<in> fst ` set book \<longrightarrow>
      (\<exists>book'. delete_record book n = Inr book' \<and> find_record book' n = None \<and>
         (m \<noteq> n \<longrightarrow> find_record book' m = find_record book m))) \<and>
   (n \<notin> fst ` set book \<longrightarrow> delete_record book n = Inr book)"
proof -
  have del: "n \<in> fst ` set book \<Longrightarrow>
      \<exists>book'. delete_record book n = Inr book' \<and> find_record book' n = None \<and>
         (m \<noteq> n \<longrightarrow> find_record book' m = find_record book m)"
    by (simp add: delete_record_present find_after_delete)
  have ndel: "n \<notin> fst ` set book \<Longrightarrow> delete_record book n = Inr book"
    by (simp add: delete_record_def)
  show ?thesis
    using find_record_absent find_add_record find_add_record_other del ndel by blast
qed

theorem addressbook_find_add_delete_witness:
  "find_record [] (ustr ''bob'') = None \<and>
   find_record (add_record [] (Record_init (ustr ''bob''))) (ustr ''bob'') =
     Some (Record_init (ustr ''bob'')) \<and>
   find_record (add_record [(ustr ''ann'', Record_init (ustr ''ann''))]
       (Record_init (ustr ''bob''))) (ustr ''ann'') = Some (Record_init (ustr ''ann'')) \<and>
   delete_record [(ustr ''ann'', Record_init (ustr ''ann''))] (ustr ''ann'') = Inr [] \<and>
   delete_record [(ustr ''ann'', Record_init (ustr ''ann''))] (ustr ''bob'') =
     Inr [(ustr ''ann'', Record_init (ustr ''ann''))]"
  using addressbook_find_add_delete [of "ustr ''bob''" "[]" "Record_init (ustr ''bob'')" "ustr ''ann''"]
        addressbook_find_add_delete [of "ustr ''ann''" "[(ustr ''ann'', Record_init (ustr ''ann''))]"
          "Record_init (ustr ''bob'')" "ustr ''ann''"]
        addressbook_find_add_delete [of "ustr ''bob''" "[(ustr ''ann'', Record_init (ustr ''ann''))]"
          "Record_init (ustr ''bob'')" "ustr ''ann''"]
  by (simp add: ustr_def Record_init_def find_record_def delete_record_def dict_delitem_def
      add_record_def)

section \<open>Phone construction\<close>

lemma ascii_digit_isdigit: "ascii_digit c \<Longrightarrow> isdigit_cp c"
  by (simp add: ascii_digit_def isdigit_cp_def isdecimal_cp_def decimal_zeros_def)

lemma Phone_init_PyStr:
  "Phone_init (PyStr s) =
     (if length s = 10 \<and> list_all isdigit_cp s then Inr (Phone s)
      else Inl (ValueError (ustr ''Phone number must be a string containing exactly 10 digits.'')))"
  by (auto simp: str_isdigit_def)

lemma Phone_init_cases:
  "Phone_init v = Inl (ValueError (ustr ''Phone number must be a string containing exactly 10 digits.'')) \<or>
   (\<exists>s. v = PyStr s \<and> length s = 10 \<and> list_all isdigit_cp s \<and> Phone_init v = Inr (Phone s))"
  by (cases v) (auto simp: str_isdigit_def)

text \<open>
  Claim C3, as the code has it. Constructing \<open>Phone v\<close> succeeds if and only if \<open>v\<close>
  is a string of exactly 10 characters that \<^verbatim>\<open>str.isdigit\<close> accepts, which are the
  Unicode digits and not only the ASCII ones; every string of exactly 10 ASCII digits is
  accepted. On success the Phone wraps \<open>v\<close> unchanged and renders as \<open>v\<close>; on failure the
  constructor raises the \<^verbatim>\<open>ValueError\<close> with the message
  "Phone number must be a string containing exactly 10 digits.".
\<close>

theorem phone_init_unicode_digits:
  "((\<exists>p. Phone_init v = Inr p) \<longleftrightarrow> (\<exists>s. v = PyStr s \<and> length s = 10 \<and> list_all isdigit_cp s)) \<and>
   (length s = 10 \<and> list_all ascii_digit s \<longrightarrow> Phone_init (PyStr s) = Inr (Phone s)) \<and>
   (Phone_init v = Inr p \<longrightarrow> v = PyStr (phone_value p) \<and> Phone_str p = phone_value p) \<and>
   ((\<forall>p. Phone_init v \<noteq> Inr p) \<longrightarrow>
      Phone_init v = Inl (ValueError (ustr ''Phone number must be a string containing exactly 10 digits.'')))"
proof -
  have a: "(\<exists>p. Phone_init v = Inr p) \<longleftrightarrow> (\<exists>s. v = PyStr s \<and> length s = 10 \<and> list_all isdigit_cp s)"
    by (cases v) (auto simp: str_isdigit_def)
  have b: "length s = 10 \<and> list_all ascii_digit s \<longrightarrow> Phone_init (PyStr s) = Inr (Phone s)"
    by (auto simp: str_isdigit_def list_all_iff ascii_digit_isdigit)
  have c: "Phone_init v = Inr p \<longrightarrow> v = PyStr (phone_value p) \<and> Phone_str p = phone_value p"
    by (cases v) (auto simp: str_isdigit_def Phone_str_def split: if_splits)
  have d: "(\<forall>p. Phone_init v \<noteq> Inr p) \<longrightarrow>
      Phone_init v = Inl (ValueError (ustr ''Phone number must be a string containing exactly 10 digits.''))"
    using Phone_init_cases [of v] by auto
  show ?thesis using a b c d by blast
qed

theorem phone_init_unicode_digits_witness:
  "Phone_init (PyStr (ustr ''0501234567'')) = Inr (Phone (ustr ''0501234567'')) \<and>
   Phone_str (Phone (ustr ''0501234567'')) = ustr ''0501234567'' \<and>
   Phone_init (PyStr (ustr ''12345'')) =
     Inl (ValueError (ustr ''Phone number must be a string containing exactly 10 digits.'')) \<and>
   Phone_init (PyInt 5) =
     Inl (ValueError (ustr ''Phone number must be a string containing exactly 10 digits.''))"
  using phone_init_unicode_digits [of "PyStr (ustr ''0501234567'')" "ustr ''0501234567''"
          "Phone (ustr ''0501234567'')"]
        phone_init_unicode_digits [of "PyStr (ustr ''12345'')" "[]" "Phone []"]
        phone_init_unicode_digits [of "PyInt 5" "[]" "Phone []"]
  by (simp add: ustr_def ascii_digit_def str_isdigit_def)

text \<open>
  The claim as stated, with ASCII digits on the right of the equivalence, fails: the
  string of ten ARABIC-INDIC DIGIT ZERO characters (code point 1632) is a Phone.
\<close>

theorem phone_init_ascii_only_counterexample:
  "\<not> (\<forall>v. (\<exists>p. Phone_init v = Inr p) \<longleftrightarrow>
          (\<exists>s. v = PyStr s \<and> length s = 10 \<and> list_all ascii_digit s))"
proof
  assume h: "\<forall>v. (\<exists>p. Phone_init v = Inr p) \<longleftrightarrow>
      (\<exists>s. v = PyStr s \<and> length s = 10 \<and> list_all ascii_digit s)"
  have "Phone_init (PyStr (replicate 10 1632)) = Inr (Phone (replicate 10 1632))"
    by (simp add: str_isdigit_def list_all_iff isdigit_cp_def isdecimal_cp_def decimal_zeros_def)
  with h have "\<exists>s. PyStr (replicate 10 1632) = PyStr s \<and> length s = 10 \<and> list_all ascii_digit s"
    by blast
  then have "list_all ascii_digit (replicate 10 1632)" by auto
  then show False by (simp add: list_all_iff ascii_digit_def)
qed

section \<open>Record: remove_phone and edit_phone\<close>

lemma find_phone_loop_None:
  "find_phone_loop ps v = None \<longleftrightarrow> (\<forall>p\<in>set ps. phone_value p \<noteq> v)"
  by (induction ps) auto

lemma remove_phone_loop_absent:
  "\<forall>p\<in>set rest. phone_value p \<noteq> v \<Longrightarrow>
   remove_phone_loop ps rest v = (Inl (ValueError (ustr ''Phone number not found.'')), ps)"
  by (induction rest) auto

lemma remove_phone_loop_first:
  "\<forall>q\<in>set pre. phone_value q \<noteq> phone_value p \<Longrightarrow>
   \<forall>q\<in>set seen. phone_value q \<noteq> phone_value p \<Longrightarrow>
   remove_phone_loop (seen @ pre @ p # post) (pre @ p # post) (phone_value p) =
     (Inr (), seen @ pre @ post)"
proof (induction pre arbitrary: seen)
  case Nil
  then have "p \<notin> set seen" by auto
  then show ?case by (simp add: remove1_append)
next
  case (Cons a pre)
  from Cons.prems have "phone_value a \<noteq> phone_value p" by simp
  moreover have "remove_phone_loop ((seen @ [a]) @ pre @ p # post) (pre @ p # post) (phone_value p) =
     (Inr (), (seen @ [a]) @ pre @ post)"
    using Cons.prems by (intro Cons.IH) auto
  ultimately show ?case by simp
qed

lemma remove_phone_absent:
  "\<forall>p\<in>set (phones r). phone_value p \<noteq> v \<Longrightarrow>
   remove_phone r v = (Inl (ValueError (ustr ''Phone number not found.'')), r)"
  by (simp add: remove_phone_def remove_phone_loop_absent)

lemma remove_phone_first:
  assumes "phones r = pre @ p # post" "\<forall>q\<in>set pre. phone_value q \<noteq> v" "phone_value p = v"
  shows "remove_phone r v = (Inr (), r\<lparr>phones := pre @ post\<rparr>)"
  using remove_phone_loop_first [of pre p "[]" post] assms
  by (simp add: remove_phone_def)

text \<open>
  Claim C9. If no phone of the record has the value \<open>v\<close>, \<open>remove_phone\<close> raises the
  \<^verbatim>\<open>ValueError\<close> "Phone number not found." (the spec's NotFoundError) and the record is
  as before. Otherwise, with \<open>p\<close> the first phone whose value is \<open>v\<close>, \<open>pre\<close> the phones
  before it and \<open>post\<close> those after it, the call returns and the phone list is
  \<open>pre @ post\<close>: only that phone is gone, later duplicates and the order stay.
\<close>

theorem remove_phone_first_match:
  "((\<forall>p\<in>set (phones r). phone_value p \<noteq> v) \<longrightarrow>
      remove_phone r v = (Inl (ValueError (ustr ''Phone number not found.'')), r)) \<and>
   (phones r = pre @ p # post \<and> (\<forall>q\<in>set pre. phone_value q \<noteq> v) \<and> phone_value p = v \<longrightarrow>
      remove_phone r v = (Inr (), r\<lparr>phones := pre @ post\<rparr>))"
  using remove_phone_absent remove_phone_first by blast

theorem remove_phone_first_match_witness:
  "remove_phone \<lparr>name = Name (ustr ''bob''), phones = [Phone (ustr ''1111111111'')], birthday = None\<rparr>
      (ustr ''2222222222'') =
     (Inl (ValueError (ustr ''Phone number not found.'')),
      \<lparr>name = Name (ustr ''bob''), phones = [Phone (ustr ''1111111111'')], birthday = None\<rparr>) \<and>
   remove_phone \<lparr>name = Name (ustr ''bob''),
        phones = [Phone (ustr ''1111111111''), Phone (ustr ''2222222222''),
                  Phone (ustr ''3333333333''), Phone (ustr ''2222222222'')], birthday = None\<rparr>
      (ustr ''2222222222'') =
     (Inr (), \<lparr>name = Name (ustr ''bob''),
        phones = [Phone (ustr ''1111111111''), Phone (ustr ''3333333333''),
                  Phone (ustr ''2222222222'')], birthday = None\<rparr>)"
  using remove_phone_first_match [of
      "\<lparr>name = Name (ustr ''bob''), phones = [Phone (ustr ''1111111111'')], birthday = None\<rparr>"
      "ustr ''2222222222''" "[]" "Phone []" "[]"]
    remove_phone_first_match [of
      "\<lparr>name = Name (ustr ''bob''),
        phones = [Phone (ustr ''1111111111''), Phone (ustr ''2222222222''),
                  Phone (ustr ''3333333333''), Phone (ustr ''2222222222'')], birthday = None\<rparr>"
      "ustr ''2222222222''" "[Phone (ustr ''1111111111'')]" "Phone (ustr ''2222222222'')"
      "[Phone (ustr ''3333333333''), Phone (ustr ''2222222222'')]"]
  by (simp add: ustr_def)

lemma find_phone_None:
  "find_phone r v = None \<longleftrightarrow> (\<forall>p\<in>set (phones r). phone_value p \<noteq> v)"
  by (simp add: find_phone_def find_phone_loop_None)

lemma invalid_message:
  "ustr ''Invalid new phone number: '' @
     ustr ''Phone number must be a string containing exactly 10 digits.'' =
   ustr ''Invalid new phone number: Phone number must be a string containing exactly 10 digits.''"
  by (simp add: ustr_def)

lemma edit_phone_not_found:
  "\<forall>p\<in>set (phones r). phone_value p \<noteq> old \<Longrightarrow>
   edit_phone r old new = (Inl (ValueError (ustr ''Old phone number not found.'')), r)"
  using find_phone_None [of r old] by (simp add: edit_phone_def)

lemma edit_phone_invalid:
  assumes "\<exists>p\<in>set (phones r). phone_value p = old" "\<not> (length new = 10 \<and> list_all isdigit_cp new)"
  shows "edit_phone r old new =
    (Inl (ValueError (ustr ''Invalid new phone number: Phone number must be a string containing exactly 10 digits.'')), r)"
proof -
  from assms(1) obtain q where "find_phone r old = Some q"
    using find_phone_None [of r old] by (cases "find_phone r old") auto
  moreover from assms(2) have "Phone_init (PyStr new) =
      Inl (ValueError (ustr ''Phone number must be a string containing exactly 10 digits.''))"
    by (simp add: Phone_init_PyStr del: Phone_init.simps)
  ultimately show ?thesis by (simp add: edit_phone_def invalid_message del: Phone_init.simps)
qed

lemma edit_phone_success:
  assumes "phones r = pre @ p # post" "\<forall>q\<in>set pre. phone_value q \<noteq> old" "phone_value p = old"
    "length new = 10 \<and> list_all isdigit_cp new"
  shows "edit_phone r old new = (Inr (), r\<lparr>phones := pre @ post @ [Phone new]\<rparr>)"
proof -
  from assms(1,3) obtain q where "find_phone r old = Some q"
    using find_phone_None [of r old] by (cases "find_phone r old") auto
  moreover from assms(4) have "Phone_init (PyStr new) = Inr (Phone new)"
    by (simp add: Phone_init_PyStr del: Phone_init.simps)
  moreover have "remove_phone r old = (Inr (), r\<lparr>phones := pre @ post\<rparr>)"
    using assms(1-3) by (rule remove_phone_first)
  ultimately show ?thesis by (simp add: edit_phone_def del: Phone_init.simps)
qed

lemma first_match_split:
  "\<exists>p\<in>set ps. phone_value p = v \<Longrightarrow>
   \<exists>pre p post. ps = pre @ p # post \<and> (\<forall>q\<in>set pre. phone_value q \<noteq> v) \<and> phone_value p = v"
  using split_list_first_prop [of ps "\<lambda>p. phone_value p = v"] by blast

lemma edit_phone_failure_unchanged:
  assumes "edit_phone r old new = (Inl e, r')"
  shows "r' = r"
proof (cases "\<exists>p\<in>set (phones r). phone_value p = old")
  case False
  then show ?thesis using assms edit_phone_not_found [of r old new] by auto
next
  case True
  show ?thesis
  proof (cases "length new = 10 \<and> list_all isdigit_cp new")
    case False
    then show ?thesis using assms edit_phone_invalid [OF True, of new] by auto
  next
    case valid: True
    from first_match_split [OF True] obtain pre p post where
      "phones r = pre @ p # post" "\<forall>q\<in>set pre. phone_value q \<noteq> old" "phone_value p = old"
      by blast
    then show ?thesis using assms edit_phone_success [of r pre p post old new] valid by auto
  qed
qed

text \<open>
  Claim C2. \<open>edit_phone old new\<close> raises the \<^verbatim>\<open>ValueError\<close> "Old phone number not found."
  (the spec's NotFoundError) when no stored phone has the value \<open>old\<close>; when \<open>old\<close> is
  stored and \<open>new\<close> is not accepted by the Phone constructor, it raises the validation
  error re-wrapped as "Invalid new phone number: ..."; whenever it raises, the record
  (name, phones and birthday) is exactly as before the call; and when \<open>old\<close> is stored and
  \<open>new\<close> is accepted, the first phone with the value \<open>old\<close> is removed and the new Phone
  is appended. So the record changes only after \<open>new\<close> has been validated.
\<close>

theorem edit_phone_validates_before_mutation:
  "((\<forall>p\<in>set (phones r). phone_value p \<noteq> old) \<longrightarrow>
      edit_phone r old new = (Inl (ValueError (ustr ''Old phone number not found.'')), r)) \<and>
   ((\<exists>p\<in>set (phones r). phone_value p = old) \<and> (\<forall>q. Phone_init (PyStr new) \<noteq> Inr q) \<longrightarrow>
      edit_phone r old new =
        (Inl (ValueError (ustr ''Invalid new phone number: Phone number must be a string containing exactly 10 digits.'')), r)) \<and>
   (edit_phone r old new = (Inl e, r') \<longrightarrow> r' = r) \<and>
   (phones r = pre @ p # post \<and> (\<forall>q\<in>set pre. phone_value q \<noteq> old) \<and> phone_value p = old \<and>
    Phone_init (PyStr new) = Inr new_obj \<longrightarrow>
      edit_phone r old new = (Inr (), r\<lparr>phones := pre @ post @ [new_obj]\<rparr>))"
proof -
  have b: "(\<exists>p\<in>set (phones r). phone_value p = old) \<and> (\<forall>q. Phone_init (PyStr new) \<noteq> Inr q) \<longrightarrow>
      edit_phone r old new =
        (Inl (ValueError (ustr ''Invalid new phone number: Phone number must be a string containing exactly 10 digits.'')), r)"
  proof (intro impI, elim conjE)
    assume 1: "\<exists>p\<in>set (phones r). phone_value p = old" and 2: "\<forall>q. Phone_init (PyStr new) \<noteq> Inr q"
    from 2 have "\<not> (length new = 10 \<and> list_all isdigit_cp new)"
      by (auto simp only: Phone_init_PyStr split: if_splits)
    with 1 show "edit_phone r old new =
        (Inl (ValueError (ustr ''Invalid new phone number: Phone number must be a string containing exactly 10 digits.'')), r)"
      by (rule edit_phone_invalid)
  qed
  have d: "phones r = pre @ p # post \<and> (\<forall>q\<in>set pre. phone_value q \<noteq> old) \<and> phone_value p = old \<and>
    Phone_init (PyStr new) = Inr new_obj \<longrightarrow>
      edit_phone r old new = (Inr (), r\<lparr>phones := pre @ post @ [new_obj]\<rparr>)"
  proof (intro impI, elim conjE)
    assume 1: "phones r = pre @ p # post" "\<forall>q\<in>set pre. phone_value q \<noteq> old" "phone_value p = old"
      and 2: "Phone_init (PyStr new) = Inr new_obj"
    from 2 have "length new = 10 \<and> list_all isdigit_cp new" "new_obj = Phone new"
      by (auto simp only: Phone_init_PyStr split: if_splits)
    with 1 show "edit_phone r old new = (Inr (), r\<lparr>phones := pre @ post @ [new_obj]\<rparr>)"
      using edit_phone_success [of r pre p post old new] by simp
  qed
  show ?thesis
    using edit_phone_not_found edit_phone_failure_unchanged b d by blast
qed

theorem edit_phone_validates_before_mutation_witness:
  "edit_phone \<lparr>name = Name (ustr ''bob''), phones = [Phone (ustr ''1111111111'')], birthday = None\<rparr>
      (ustr ''2222222222'') (ustr ''3333333333'') =
     (Inl (ValueError (ustr ''Old phone number not found.'')),
      \<lparr>name = Name (ustr ''bob''), phones = [Phone (ustr ''1111111111'')], birthday = None\<rparr>) \<and>
   edit_phone \<lparr>name = Name (ustr ''bob''), phones = [Phone (ustr ''1111111111'')], birthday = None\<rparr>
      (ustr ''1111111111'') (ustr ''123'') =
     (Inl (ValueError (ustr ''Invalid new phone number: Phone number must be a string containing exactly 10 digits.'')),
      \<lparr>name = Name (ustr ''bob''), phones = [Phone (ustr ''1111111111'')], birthday = None\<rparr>) \<and>
   edit_phone \<lparr>name = Name (ustr ''bob''),
        phones = [Phone (ustr ''1111111111''), Phone (ustr ''2222222222'')], birthday = None\<rparr>
      (ustr ''1111111111'') (ustr ''3333333333'') =
     (Inr (), \<lparr>name = Name (ustr ''bob''),
        phones = [Phone (ustr ''2222222222''), Phone (ustr ''3333333333'')], birthday = None\<rparr>)"
  using edit_phone_validates_before_mutation [of
      "\<lparr>name = Name (ustr ''bob''), phones = [Phone (ustr ''1111111111'')], birthday = None\<rparr>"
      "ustr ''2222222222''" "ustr ''3333333333''" "KeyError"
      "\<lparr>name = Name (ustr ''bob''), phones = [Phone (ustr ''1111111111'')], birthday = None\<rparr>"
      "[]" "Phone []" "[]" "Phone []"]
    edit_phone_validates_before_mutation [of
      "\<lparr>name = Name (ustr ''bob''), phones = [Phone (ustr ''1111111111'')], birthday = None\<rparr>"
      "ustr ''1111111111''" "ustr ''123''" "KeyError"
      "\<lparr>name = Name (ustr ''bob''), phones = [Phone (ustr ''1111111111'')], birthday = None\<rparr>"
      "[]" "Phone []" "[]" "Phone []"]
    edit_phone_validates_before_mutation [of
      "\<lparr>name = Name (ustr ''bob''),
        phones = [Phone (ustr ''1111111111''), Phone (ustr ''2222222222'')], birthday = None\<rparr>"
      "ustr ''1111111111''" "ustr ''3333333333''" "KeyError"
      "\<lparr>name = Name (ustr ''bob''), phones = [], birthday = None\<rparr>"
      "[]" "Phone (ustr ''1111111111'')" "[Phone (ustr ''2222222222'')]" "Phone (ustr ''3333333333'')"]
  by (simp add: ustr_def str_isdigit_def isdigit_cp_def isdecimal_cp_def decimal_zeros_def)

section \<open>Command handlers: the add command and the argument guards\<close>

lemma update_present_keys:
  "k \<in> fst ` set al \<Longrightarrow> map fst (AList.update k v al) = map fst al"
  by (simp add: update_keys)

lemma update_absent_append:
  "k \<notin> fst ` set al \<Longrightarrow> AList.update k v al = al @ [(k, v)]"
  by (induction al) auto

lemma find_record_Some_key: "find_record book n = Some r \<Longrightarrow> n \<in> fst ` set book"
  unfolding find_record_def by (metis map_of_eq_None_iff option.distinct(1))

lemma find_record_None_key: "find_record book n = None \<Longrightarrow> n \<notin> fst ` set book"
  by (simp add: find_record_def map_of_eq_None_iff)

lemma add_phone_valid:
  "length phone = 10 \<and> list_all isdigit_cp phone \<Longrightarrow>
   add_phone r phone = (Inr (), r\<lparr>phones := phones r @ [Phone phone]\<rparr>)"
  by (simp add: add_phone_def Phone_init_PyStr del: Phone_init.simps)

lemma add_contact_existing:
  assumes "find_record book n = Some record" "length phone = 10 \<and> list_all isdigit_cp phone"
  shows "add_contact [n, phone] book =
     (Inr (PyStr (ustr ''Phone added to existing contact.'')),
      AList.update n (record\<lparr>phones := phones record @ [Phone phone]\<rparr>) book)"
  using assms by (simp add: add_contact_def input_error_def add_contact_func_def add_phone_valid)

lemma add_contact_new:
  assumes "find_record book n = None" "length phone = 10 \<and> list_all isdigit_cp phone"
  shows "add_contact [n, phone] book =
     (Inr (PyStr (ustr ''New contact added.'')),
      book @ [(n, \<lparr>name = Name n, phones = [Phone phone], birthday = None\<rparr>)])"
  using assms find_record_None_key [OF assms(1)]
  by (simp add: add_contact_def input_error_def add_contact_func_def add_phone_valid
      Record_init_def add_record_def update_absent_append)

lemma add_contact_wrong_arity:
  assumes "length args \<noteq> 2"
  shows "add_contact args book = (Inr PyNone, book)"
proof (cases args)
  case Nil
  then show ?thesis by (simp add: add_contact_def input_error_def add_contact_func_def)
next
  case a: (Cons a as)
  show ?thesis
  proof (cases as)
    case Nil
    with a show ?thesis by (simp add: add_contact_def input_error_def add_contact_func_def)
  next
    case b: (Cons b bs)
    show ?thesis
    proof (cases bs)
      case Nil
      with a b assms show ?thesis by simp
    next
      case (Cons c cs)
      with a b show ?thesis by (simp add: add_contact_def input_error_def add_contact_func_def)
    qed
  qed
qed

lemma show_phone_absent:
  "find_record book n = None \<Longrightarrow> show_phone [n] book = (Inr PyNone, book)"
  by (simp add: show_phone_def input_error_def show_phone_func_def)


text \<open>
  Claim C7. For every address book, name and phone that the Phone constructor accepts:
  if a record is stored under the name, the \<open>add\<close> command answers "Phone added to
  existing contact.", the record under that name is the old one with the new phone
  appended, and the book has the same number of contacts and the same keys in the same
  order (no duplicate contact), every other name being looked up as before; if no record
  is stored under the name, the command answers "New contact added." and the book gains,
  at the end, a new record with that name, that single phone and no birthday.
\<close>

theorem add_contact_create_or_extend:
  "(find_record book n = Some record \<and> Phone_init (PyStr phone) = Inr phone_obj \<longrightarrow>
      (\<exists>book'. add_contact [n, phone] book =
                 (Inr (PyStr (ustr ''Phone added to existing contact.'')), book') \<and>
         find_record book' n = Some (record\<lparr>phones := phones record @ [phone_obj]\<rparr>) \<and>
         length book' = length book \<and> map fst book' = map fst book \<and>
         (m \<noteq> n \<longrightarrow> find_record book' m = find_record book m))) \<and>
   (find_record book n = None \<and> Phone_init (PyStr phone) = Inr phone_obj \<longrightarrow>
      add_contact [n, phone] book =
        (Inr (PyStr (ustr ''New contact added.'')),
         book @ [(n, \<lparr>name = Name n, phones = [phone_obj], birthday = None\<rparr>)]))"
proof -
  have v: "Phone_init (PyStr phone) = Inr phone_obj \<Longrightarrow>
      (length phone = 10 \<and> list_all isdigit_cp phone) \<and> phone_obj = Phone phone"
    by (auto simp only: Phone_init_PyStr split: if_splits)
  have a: "find_record book n = Some record \<and> Phone_init (PyStr phone) = Inr phone_obj \<longrightarrow>
      (\<exists>book'. add_contact [n, phone] book =
                 (Inr (PyStr (ustr ''Phone added to existing contact.'')), book') \<and>
         find_record book' n = Some (record\<lparr>phones := phones record @ [phone_obj]\<rparr>) \<and>
         length book' = length book \<and> map fst book' = map fst book \<and>
         (m \<noteq> n \<longrightarrow> find_record book' m = find_record book m))"
  proof (intro impI, elim conjE)
    assume f: "find_record book n = Some record" and p: "Phone_init (PyStr phone) = Inr phone_obj"
    let ?b = "AList.update n (record\<lparr>phones := phones record @ [Phone phone]\<rparr>) book"
    have keys: "map fst ?b = map fst book"
      using find_record_Some_key [OF f] by (rule update_present_keys)
    have 1: "add_contact [n, phone] book =
        (Inr (PyStr (ustr ''Phone added to existing contact.'')), ?b)"
      using f v [OF p] by (simp add: add_contact_existing del: Phone_init.simps)
    have 2: "find_record ?b n = Some (record\<lparr>phones := phones record @ [phone_obj]\<rparr>)"
      using v [OF p] by (simp add: find_record_def update_conv' del: Phone_init.simps)
    have 3: "length ?b = length book"
      using keys by (metis length_map)
    have 4: "m \<noteq> n \<longrightarrow> find_record ?b m = find_record book m"
      by (simp add: find_record_def update_conv')
    show "\<exists>book'. add_contact [n, phone] book =
                 (Inr (PyStr (ustr ''Phone added to existing contact.'')), book') \<and>
         find_record book' n = Some (record\<lparr>phones := phones record @ [phone_obj]\<rparr>) \<and>
         length book' = length book \<and> map fst book' = map fst book \<and>
         (m \<noteq> n \<longrightarrow> find_record book' m = find_record book m)"
      using 1 2 3 4 keys by (intro exI [of _ ?b] conjI)
  qed
  have b: "find_record book n = None \<and> Phone_init (PyStr phone) = Inr phone_obj \<longrightarrow>
      add_contact [n, phone] book =
        (Inr (PyStr (ustr ''New contact added.'')),
         book @ [(n, \<lparr>name = Name n, phones = [phone_obj], birthday = None\<rparr>)])"
  proof (intro impI, elim conjE)
    assume f: "find_record book n = None" and p: "Phone_init (PyStr phone) = Inr phone_obj"
    show "add_contact [n, phone] book =
        (Inr (PyStr (ustr ''New contact added.'')),
         book @ [(n, \<lparr>name = Name n, phones = [phone_obj], birthday = None\<rparr>)])"
      using v [OF p] add_contact_new [OF f, of phone] by (simp del: Phone_init.simps)
  qed
  show ?thesis using a b by (rule conjI)
qed


lemma phone_example: "Phone_init (PyStr (ustr ''0501234567'')) = Inr (Phone (ustr ''0501234567''))"
  by (simp add: Phone_init_PyStr ustr_def ascii_digit_isdigit ascii_digit_def del: Phone_init.simps)

theorem add_contact_create_or_extend_witness:
  "add_contact [ustr ''bob'', ustr ''0501234567'']
      [(ustr ''bob'', \<lparr>name = Name (ustr ''bob''), phones = [Phone (ustr ''1111111111'')], birthday = None\<rparr>)] =
     (Inr (PyStr (ustr ''Phone added to existing contact.'')),
      [(ustr ''bob'', \<lparr>name = Name (ustr ''bob''),
          phones = [Phone (ustr ''1111111111''), Phone (ustr ''0501234567'')], birthday = None\<rparr>)]) \<and>
   add_contact [ustr ''bob'', ustr ''0501234567''] [] =
     (Inr (PyStr (ustr ''New contact added.'')),
      [(ustr ''bob'', \<lparr>name = Name (ustr ''bob''), phones = [Phone (ustr ''0501234567'')], birthday = None\<rparr>)])"
proof -
  have f1: "find_record
      [(ustr ''bob'', \<lparr>name = Name (ustr ''bob''), phones = [Phone (ustr ''1111111111'')], birthday = None\<rparr>)]
      (ustr ''bob'') =
      Some \<lparr>name = Name (ustr ''bob''), phones = [Phone (ustr ''1111111111'')], birthday = None\<rparr>"
    by (simp add: find_record_def)
  have f2: "find_record [] (ustr ''bob'') = None"
    by (simp add: find_record_def)
  from add_contact_create_or_extend [of
      "[(ustr ''bob'', \<lparr>name = Name (ustr ''bob''), phones = [Phone (ustr ''1111111111'')], birthday = None\<rparr>)]"
      "ustr ''bob''"
      "\<lparr>name = Name (ustr ''bob''), phones = [Phone (ustr ''1111111111'')], birthday = None\<rparr>"
      "ustr ''0501234567''" "Phone (ustr ''0501234567'')" "ustr ''ann''"] f1 phone_example
  obtain book' where
    1: "add_contact [ustr ''bob'', ustr ''0501234567'']
      [(ustr ''bob'', \<lparr>name = Name (ustr ''bob''), phones = [Phone (ustr ''1111111111'')], birthday = None\<rparr>)] =
     (Inr (PyStr (ustr ''Phone added to existing contact.'')), book')"
    and 2: "find_record book' (ustr ''bob'') =
      Some \<lparr>name = Name (ustr ''bob''),
          phones = [Phone (ustr ''1111111111''), Phone (ustr ''0501234567'')], birthday = None\<rparr>"
    and 3: "length book' = 1" and 4: "map fst book' = [ustr ''bob'']"
    by auto
  from 3 4 obtain r where b: "book' = [(ustr ''bob'', r)]"
    by (cases book') auto
  with 2 have "r = \<lparr>name = Name (ustr ''bob''),
          phones = [Phone (ustr ''1111111111''), Phone (ustr ''0501234567'')], birthday = None\<rparr>"
    by (simp add: find_record_def)
  with 1 b have A: "add_contact [ustr ''bob'', ustr ''0501234567'']
      [(ustr ''bob'', \<lparr>name = Name (ustr ''bob''), phones = [Phone (ustr ''1111111111'')], birthday = None\<rparr>)] =
     (Inr (PyStr (ustr ''Phone added to existing contact.'')),
      [(ustr ''bob'', \<lparr>name = Name (ustr ''bob''),
          phones = [Phone (ustr ''1111111111''), Phone (ustr ''0501234567'')], birthday = None\<rparr>)])"
    by simp
  from add_contact_create_or_extend [of "[]" "ustr ''bob''"
      "\<lparr>name = Name (ustr ''bob''), phones = [], birthday = None\<rparr>"
      "ustr ''0501234567''" "Phone (ustr ''0501234567'')" "ustr ''ann''"] f2 phone_example
  have B: "add_contact [ustr ''bob'', ustr ''0501234567''] [] =
     (Inr (PyStr (ustr ''New contact added.'')),
      [(ustr ''bob'', \<lparr>name = Name (ustr ''bob''), phones = [Phone (ustr ''0501234567'')], birthday = None\<rparr>)])"
    by simp
  from A B show ?thesis by (rule conjI)
qed

text \<open>
  Claim C10. For every address book and every name not in it, \<open>show_phone\<close> called with
  exactly that one argument returns \<^verbatim>\<open>None\<close>, no "Contact not found." and no other
  string; and \<open>add_contact\<close> called with an argument list whose length is not 2 returns
  \<^verbatim>\<open>None\<close> as well. Neither call changes the book.
\<close>

theorem handlers_fall_through_to_none:
  "(find_record book n = None \<longrightarrow> show_phone [n] book = (Inr PyNone, book)) \<and>
   (length args \<noteq> 2 \<longrightarrow> add_contact args book = (Inr PyNone, book))"
  using show_phone_absent add_contact_wrong_arity by blast

theorem handlers_fall_through_to_none_witness:
  "show_phone [ustr ''ann'']
      [(ustr ''bob'', \<lparr>name = Name (ustr ''bob''), phones = [Phone (ustr ''1111111111'')], birthday = None\<rparr>)] =
     (Inr PyNone,
      [(ustr ''bob'', \<lparr>name = Name (ustr ''bob''), phones = [Phone (ustr ''1111111111'')], birthday = None\<rparr>)]) \<and>
   add_contact [ustr ''bob''] [] = (Inr PyNone, []) \<and>
   add_contact [ustr ''bob'', ustr ''0501234567'', ustr ''extra''] [] = (Inr PyNone, [])"
proof -
  have f: "find_record
      [(ustr ''bob'', \<lparr>name = Name (ustr ''bob''), phones = [Phone (ustr ''1111111111'')], birthday = None\<rparr>)]
      (ustr ''ann'') = None"
    by (simp add: find_record_def ustr_def)
  show ?thesis
    using f handlers_fall_through_to_none [of
      "[(ustr ''bob'', \<lparr>name = Name (ustr ''bob''), phones = [Phone (ustr ''1111111111'')], birthday = None\<rparr>)]"
      "ustr ''ann''" "[ustr ''bob'']"]
    handlers_fall_through_to_none [of "[]" "ustr ''ann''" "[ustr ''bob'']"]
    handlers_fall_through_to_none [of "[]" "ustr ''ann''"
      "[ustr ''bob'', ustr ''0501234567'', ustr ''extra'']"]
    by simp
qed

text \<open>
  Claim C6 says that each of the five handlers that take arguments answers a wrong
  number of arguments with "Invalid command format. Use: [command] [name] [phone]". The
  handlers guard their body with a test of \<^verbatim>\<open>len(args)\<close> that has no \<^verbatim>\<open>else\<close>, so no
  \<^verbatim>\<open>IndexError\<close> is ever raised for the decorator to translate: at these argument lists
  each of the five returns \<^verbatim>\<open>None\<close>, which is not that message.
\<close>

theorem wrong_arity_returns_none:
  "add_contact [ustr ''bob''] [] = (Inr PyNone, []) \<and>
   change_contact [ustr ''bob'', ustr ''0501234567''] [] = (Inr PyNone, []) \<and>
   show_phone [] [] = (Inr PyNone, []) \<and>
   add_birthday [ustr ''bob''] [] = (Inr PyNone, []) \<and>
   show_birthday [ustr ''bob'', ustr ''extra''] [] = (Inr PyNone, []) \<and>
   Inr PyNone \<noteq>
     (Inr (PyStr (ustr ''Invalid command format. Use: [command] [name] [phone]'')) :: py_error + pyval)"
  by (simp add: add_contact_def change_contact_def show_phone_def add_birthday_def
      show_birthday_def input_error_def add_contact_func_def change_contact_func_def
      show_phone_func_def add_birthday_func_def show_birthday_func_def)

section \<open>Evaluating the parser and the calculator\<close>

lemma ascii_isdecimal: "ascii_digit c \<Longrightarrow> isdecimal_cp c"
  by (simp add: ascii_digit_def isdecimal_cp_def decimal_zeros_def)

lemma ascii_decimal_value: "ascii_digit c \<Longrightarrow> decimal_value c = c - 48"
  by (simp add: ascii_digit_def decimal_value_def decimal_zeros_def)

lemma found_feb29:
  "strptime_found (ustr ''29.02.2024'') = [(ustr ''29'', ustr ''02'', ustr ''2024'', [])]"
  by (simp add: strptime_found_def ustr_def re_d_def re_m_def re_Y_def ascii_isdecimal ascii_digit_def)

lemma parse_feb29: "strptime (ustr ''29.02.2024'') = Some \<lparr>year = 2024, month = 2, day = 29\<rparr>"
  unfolding strptime_def found_feb29
  by (simp add: ustr_def py_int_def ascii_decimal_value ascii_digit_def new_date_def
      days_in_month_def is_leap_def)


lemma book_bob:
  "add_contact [ustr ''bob'', ustr ''0501234567''] [] =
   (Inr (PyStr (ustr ''New contact added.'')),
    [(ustr ''bob'', \<lparr>name = Name (ustr ''bob''), phones = [Phone (ustr ''0501234567'')], birthday = None\<rparr>)])"
  by (simp add: add_contact_def input_error_def add_contact_func_def find_record_def add_phone_def
      phone_example Record_init_def add_record_def del: Phone_init.simps)

lemma book_bob_feb29:
  "add_birthday [ustr ''bob'', ustr ''29.02.2024'']
    [(ustr ''bob'', \<lparr>name = Name (ustr ''bob''), phones = [Phone (ustr ''0501234567'')], birthday = None\<rparr>)] =
   (Inr (PyStr (ustr ''Birthday added.'')),
    [(ustr ''bob'', \<lparr>name = Name (ustr ''bob''), phones = [Phone (ustr ''0501234567'')],
        birthday = Some (Birthday \<lparr>year = 2024, month = 2, day = 29\<rparr>)\<rparr>)])"
  by (simp add: add_birthday_def input_error_def add_birthday_func_def find_record_def
      Record_add_birthday_def Birthday_init_def parse_feb29)

lemma feb29_fails:
  "get_upcoming_birthdays
    [(ustr ''bob'', \<lparr>name = Name (ustr ''bob''), phones = [Phone (ustr ''0501234567'')],
        birthday = Some (Birthday \<lparr>year = 2024, month = 2, day = 29\<rparr>)\<rparr>)]
    \<lparr>year = 2025, month = 1, day = 1\<rparr> = Inl (ValueError (ustr ''day is out of range for month''))"
  by (simp add: get_upcoming_birthdays_def upcoming_entry_def date_replace_year_def new_date_def
      days_in_month_def is_leap_def)

text \<open>
  Claim C5. There are an address book with a record whose birthday is February 29 of a
  leap year and a current date in a year that is not a leap year for which
  \<open>get_upcoming_birthdays\<close> raises instead of returning: the year substitution that
  builds \<^verbatim>\<open>birthday_this_year\<close> raises \<^verbatim>\<open>ValueError\<close>. The book is the one the commands
  \<^verbatim>\<open>add bob 0501234567\<close> and \<^verbatim>\<open>add-birthday bob 29.02.2024\<close> build from the empty book, and
  the current date is 1 January 2025.
\<close>

theorem feb29_year_substitution_fails:
  "\<exists>book today b.
     add_birthday [ustr ''bob'', ustr ''29.02.2024'']
       (snd (add_contact [ustr ''bob'', ustr ''0501234567''] [])) =
       (Inr (PyStr (ustr ''Birthday added.'')), book) \<and>
     map_option birthday (find_record book (ustr ''bob'')) = Some (Some (Birthday b)) \<and>
     month b = 2 \<and> day b = 29 \<and> valid_date b \<and> days_in_month (year b) 2 = 29 \<and>
     valid_date today \<and> days_in_month (year today) 2 = 28 \<and>
     get_upcoming_birthdays book today =
       Inl (ValueError (ustr ''day is out of range for month''))"
proof (intro exI conjI)
  show "add_birthday [ustr ''bob'', ustr ''29.02.2024'']
       (snd (add_contact [ustr ''bob'', ustr ''0501234567''] [])) =
       (Inr (PyStr (ustr ''Birthday added.'')),
        [(ustr ''bob'', \<lparr>name = Name (ustr ''bob''), phones = [Phone (ustr ''0501234567'')],
          birthday = Some (Birthday \<lparr>year = 2024, month = 2, day = 29\<rparr>)\<rparr>)])"
    by (simp only: book_bob snd_conv book_bob_feb29)
  show "map_option birthday (find_record
        [(ustr ''bob'', \<lparr>name = Name (ustr ''bob''), phones = [Phone (ustr ''0501234567'')],
          birthday = Some (Birthday \<lparr>year = 2024, month = 2, day = 29\<rparr>)\<rparr>)] (ustr ''bob'')) =
      Some (Some (Birthday \<lparr>year = 2024, month = 2, day = 29\<rparr>))"
    by (simp add: find_record_def)
  show "get_upcoming_birthdays
        [(ustr ''bob'', \<lparr>name = Name (ustr ''bob''), phones = [Phone (ustr ''0501234567'')],
          birthday = Some (Birthday \<lparr>year = 2024, month = 2, day = 29\<rparr>)\<rparr>)]
        \<lparr>year = 2025, month = 1, day = 1\<rparr> =
       Inl (ValueError (ustr ''day is out of range for month''))"
    by (rule feb29_fails)
qed (simp_all add: valid_date_def days_in_month_def is_leap_def)

section \<open>Calendar arithmetic\<close>

lemma weekday_lt_7: "weekday d < 7"
  by (simp add: weekday_def)

lemma mod_facts:
  "((n::nat) mod 100 = 0 \<longrightarrow> n mod 4 = 0) \<and> (n mod 400 = 0 \<longrightarrow> n mod 100 = 0)"
  by presburger

lemma dby_step:
  fixes A B C k a b c :: nat
  assumes "B \<le> A" "b \<le> a"
  shows "Suc k * 365 + (A + a) - (B + b) + (C + c) = k * 365 + A - B + C + (365 + a - b + c)"
  using assms by simp

lemma days_before_year_Suc:
  "days_before_year (Suc (Suc k)) =
   days_before_year (Suc k) + (if is_leap (Suc k) then 366 else 365)"
proof -
  define a :: nat where "a = (if Suc k mod 4 = 0 then 1 else 0)"
  define b :: nat where "b = (if Suc k mod 100 = 0 then 1 else 0)"
  define c :: nat where "c = (if Suc k mod 400 = 0 then 1 else 0)"
  have le: "k div 100 \<le> k div 4"
    by (simp add: div_le_mono2)
  have ba: "b \<le> a"
    using mod_facts [of "Suc k"] by (simp add: a_def b_def)
  have d4: "Suc k div 4 = k div 4 + a"
    by (simp add: div_Suc a_def)
  have d100: "Suc k div 100 = k div 100 + b"
    by (simp add: div_Suc b_def)
  have d400: "Suc k div 400 = k div 400 + c"
    by (simp add: div_Suc c_def)
  have unf: "days_before_year (Suc (Suc k)) =
      Suc k * 365 + Suc k div 4 - Suc k div 100 + Suc k div 400"
    "days_before_year (Suc k) = k * 365 + k div 4 - k div 100 + k div 400"
    by (simp_all add: days_before_year_def)
  have step: "days_before_year (Suc (Suc k)) = days_before_year (Suc k) + (365 + a - b + c)"
    unfolding unf d4 d100 d400 using le ba by (rule dby_step)
  have "365 + a - b + c = (if is_leap (Suc k) then 366 else 365)"
  proof (cases "Suc k mod 4 = 0")
    case False
    then have "Suc k mod 100 \<noteq> 0 \<and> Suc k mod 400 \<noteq> 0"
      using mod_facts [of "Suc k"] by metis
    with False show ?thesis by (simp add: a_def b_def c_def is_leap_def)
  next
    case m4: True
    show ?thesis
    proof (cases "Suc k mod 100 = 0")
      case False
      then have "Suc k mod 400 \<noteq> 0"
        using mod_facts [of "Suc k"] by metis
      with m4 False show ?thesis by (simp add: a_def b_def c_def is_leap_def)
    next
      case True
      with m4 show ?thesis by (simp add: a_def b_def c_def is_leap_def)
    qed
  qed
  with step show ?thesis by simp
qed

lemma days_before_month_Suc:
  "1 \<le> m \<Longrightarrow> m \<le> 11 \<Longrightarrow>
   days_before_month y (Suc m) = days_before_month y m + days_in_month y m"
proof -
  assume "1 \<le> m" "m \<le> 11"
  then have "m = 1 \<or> m = 2 \<or> m = 3 \<or> m = 4 \<or> m = 5 \<or> m = 6 \<or> m = 7 \<or> m = 8 \<or> m = 9 \<or>
      m = 10 \<or> m = 11" by arith
  then show ?thesis
    by (elim disjE) (simp_all add: days_before_month_def days_in_month_def)
qed

lemma toordinal_succ_day:
  assumes "valid_date d"
  shows "toordinal (succ_day d) = toordinal d + 1"
proof -
  from assms have v: "1 \<le> year d" "1 \<le> month d" "month d \<le> 12" "1 \<le> day d"
    "day d \<le> days_in_month (year d) (month d)"
    by (simp_all add: valid_date_def)
  show ?thesis
  proof (cases "day d < days_in_month (year d) (month d)")
    case True
    then show ?thesis by (simp add: succ_day_def toordinal_def)
  next
    case False
    with v have last: "day d = days_in_month (year d) (month d)" by simp
    show ?thesis
    proof (cases "month d < 12")
      case True
      with v have "days_before_month (year d) (Suc (month d)) =
          days_before_month (year d) (month d) + days_in_month (year d) (month d)"
        by (intro days_before_month_Suc) simp_all
      with False True last show ?thesis by (simp add: succ_day_def toordinal_def)
    next
      case m12: False
      with v have m: "month d = 12" by simp
      from v obtain k where k: "year d = Suc k" by (cases "year d") simp_all
      have "days_before_year (Suc (Suc k)) =
          days_before_year (Suc k) + (if is_leap (Suc k) then 366 else 365)"
        by (rule days_before_year_Suc)
      with False m12 m k last show ?thesis
        by (simp add: succ_day_def toordinal_def days_before_month_def days_in_month_def)
    qed
  qed
qed

lemma weekday_succ_day:
  "valid_date d \<Longrightarrow> weekday (succ_day d) = (weekday d + 1) mod 7"
  by (simp add: weekday_def toordinal_succ_day mod_simps)

lemma days_in_month_pos: "Suc 0 \<le> days_in_month y m"
  by (simp add: days_in_month_def)

lemma weekday_last_day:
  "year d = 9999 \<Longrightarrow> month d = 12 \<Longrightarrow> day d = 31 \<Longrightarrow> weekday d = 4"
  by (simp add: weekday_def toordinal_def days_before_year_def days_before_month_def is_leap_def)

lemma succ_day_valid:
  assumes "valid_date d" "weekday d \<noteq> 4"
  shows "valid_date (succ_day d)"
proof -
  from assms(1) have v: "1 \<le> year d" "year d \<le> 9999" "1 \<le> month d" "month d \<le> 12" "1 \<le> day d"
    "day d \<le> days_in_month (year d) (month d)"
    by (simp_all add: valid_date_def)
  have notlast: "\<not> (year d = 9999 \<and> month d = 12 \<and> day d = 31)"
    using assms(2) weekday_last_day by blast
  have dim12: "days_in_month (year d) 12 = 31" by (simp add: days_in_month_def)
  show ?thesis
  proof (cases "day d < days_in_month (year d) (month d)")
    case True
    with v show ?thesis by (simp add: succ_day_def valid_date_def)
  next
    case False
    with v have last: "day d = days_in_month (year d) (month d)" by simp
    show ?thesis
    proof (cases "month d < 12")
      case True
      with False v show ?thesis by (simp add: succ_day_def valid_date_def days_in_month_pos)
    next
      case m12: False
      with v have m: "month d = 12" by simp
      with last dim12 have "day d = 31" by simp
      with notlast m v have "year d < 9999" by simp
      with False m12 show ?thesis by (simp add: succ_day_def valid_date_def days_in_month_def)
    qed
  qed
qed

lemma next_day_ok:
  "valid_date d \<Longrightarrow> weekday d \<noteq> 4 \<Longrightarrow> next_day d = Inr (succ_day d)"
  using succ_day_valid [of d] by (simp add: next_day_def valid_date_def)

lemma add_days_weekend:
  assumes "valid_date d" "5 \<le> weekday d"
  shows "date_add_days d (7 - weekday d) = Inr (following_monday d)"
proof -
  from assms(2) weekday_lt_7 [of d] have "weekday d = 5 \<or> weekday d = 6" by arith
  then show ?thesis
  proof
    assume w: "weekday d = 5"
    then have n1: "next_day d = Inr (succ_day d)" using assms(1) by (simp add: next_day_ok)
    have w1: "weekday (succ_day d) = 6" using w assms(1) by (simp add: weekday_succ_day)
    have v1: "valid_date (succ_day d)" using w assms(1) by (simp add: succ_day_valid)
    then have n2: "next_day (succ_day d) = Inr (succ_day (succ_day d))"
      using w1 by (simp add: next_day_ok)
    have w2: "weekday (succ_day (succ_day d)) = 0" using w1 v1 by (simp add: weekday_succ_day)
    have "7 - weekday d = Suc (Suc 0)" using w by simp
    then have "date_add_days d (7 - weekday d) = Inr (succ_day (succ_day d))"
      using n1 n2 by simp
    moreover have "following_monday d = succ_day (succ_day d)"
      using w1 w2 by (simp add: following_monday_def eval_nat_numeral)
    ultimately show ?thesis by simp
  next
    assume w: "weekday d = 6"
    then have n1: "next_day d = Inr (succ_day d)" using assms(1) by (simp add: next_day_ok)
    have w1: "weekday (succ_day d) = 0" using w assms(1) by (simp add: weekday_succ_day)
    have "7 - weekday d = Suc 0" using w by simp
    then have "date_add_days d (7 - weekday d) = Inr (succ_day d)"
      using n1 by simp
    moreover have "following_monday d = succ_day d"
      using w1 by (simp add: following_monday_def eval_nat_numeral)
    ultimately show ?thesis by simp
  qed
qed

section \<open>The birthday-window calculator against the specification\<close>

lemma replace_year_ok:
  "occurs_in_year b y \<Longrightarrow> date_replace_year b y = Inr (b\<lparr>year := y\<rparr>)"
  by (simp add: occurs_in_year_def date_replace_year_def new_date_def)

lemma occurs_valid: "occurs_in_year b y \<Longrightarrow> valid_date (b\<lparr>year := y\<rparr>)"
  by (simp add: occurs_in_year_def valid_date_def)

lemma next_occurrence_valid:
  "substitutable today b \<Longrightarrow> valid_date (next_occurrence today b)"
  by (auto simp: substitutable_def next_occurrence_def occurs_valid split: if_splits)

lemma replace_twice:
  assumes "substitutable today b"
  shows "(case date_replace_year b (year today) of
            Inl e \<Rightarrow> Inl e
          | Inr this_year \<Rightarrow>
              (if date_lt this_year today then date_replace_year this_year (year today + 1)
               else Inr this_year)) = Inr (next_occurrence today b)"
proof -
  from assms have 1: "date_replace_year b (year today) = Inr (b\<lparr>year := year today\<rparr>)"
    by (simp add: substitutable_def replace_year_ok)
  show ?thesis
  proof (cases "date_lt (b\<lparr>year := year today\<rparr>) today")
    case True
    with assms have "occurs_in_year b (year today + 1)" by (simp add: substitutable_def)
    then have "occurs_in_year (b\<lparr>year := year today\<rparr>) (year today + 1)"
      by (simp add: occurs_in_year_def)
    then have "date_replace_year (b\<lparr>year := year today\<rparr>) (year today + 1) =
        Inr (b\<lparr>year := year today + 1\<rparr>)"
      by (simp add: replace_year_ok)
    with 1 True show ?thesis by (simp add: next_occurrence_def)
  next
    case False
    with 1 show ?thesis by (simp add: next_occurrence_def)
  qed
qed

lemma congratulation_code:
  assumes "valid_date d"
  shows "(if 5 \<le> weekday d then date_add_days d (7 - weekday d) else Inr d) =
         Inr (congratulation d)"
proof (cases "5 \<le> weekday d")
  case True
  with weekday_lt_7 [of d] have "weekday d = 5 \<or> weekday d = 6" by arith
  with True assms show ?thesis by (simp add: congratulation_def add_days_weekend)
next
  case False
  then have "\<not> (weekday d = 5 \<or> weekday d = 6)" by arith
  with False show ?thesis by (simp add: congratulation_def)
qed

lemma upcoming_entry_spec:
  assumes "substitutable today (birthday_value b)"
  shows "upcoming_entry today r b =
     Inr (if date_diff_days (next_occurrence today (birthday_value b)) today \<le> 7
          then Some (name_value (name r),
                     strftime (congratulation (next_occurrence today (birthday_value b))))
          else None)"
proof -
  let ?occ = "next_occurrence today (birthday_value b)"
  have v: "valid_date ?occ" using assms by (rule next_occurrence_valid)
  have "upcoming_entry today r b =
     (case (case date_replace_year (birthday_value b) (year today) of
            Inl e \<Rightarrow> Inl e
          | Inr this_year \<Rightarrow>
              (if date_lt this_year today then date_replace_year this_year (year today + 1)
               else Inr this_year)) of
        Inl e \<Rightarrow> Inl e
      | Inr birthday_this_year \<Rightarrow>
               if date_diff_days birthday_this_year today \<le> 7
               then (case (if 5 \<le> weekday birthday_this_year
                           then date_add_days birthday_this_year
                                  (7 - weekday birthday_this_year)
                           else Inr birthday_this_year) of
                       Inl e \<Rightarrow> Inl e
                     | Inr congratulation_date \<Rightarrow>
                         Inr (Some (name_value (name r), strftime congratulation_date)))
               else Inr None)"
    by (simp add: upcoming_entry_def split: sum.splits)
  also have "\<dots> = Inr (if date_diff_days ?occ today \<le> 7
          then Some (name_value (name r), strftime (congratulation ?occ)) else None)"
    unfolding replace_twice [OF assms] using congratulation_code [OF v] by simp
  finally show ?thesis .
qed

lemma map_filter_Cons:
  "List.map_filter f (x # xs) = (case f x of None \<Rightarrow> List.map_filter f xs
                                 | Some y \<Rightarrow> y # List.map_filter f xs)"
  by (simp add: List.map_filter_def split: option.splits)

lemma upcoming_loop_spec:
  "book_substitutable today book \<Longrightarrow>
   upcoming_loop today book acc = Inr (acc @ upcoming_spec book today)"
proof (induction book arbitrary: acc)
  case Nil
  then show ?case by (simp add: upcoming_spec_def List.map_filter_def)
next
  case (Cons kr book)
  obtain k r where kr: "kr = (k, r)" by (cases kr)
  from Cons.prems have rest: "book_substitutable today book"
    by (simp add: book_substitutable_def)
  note IH = Cons.IH [OF rest]
  show ?case
  proof (cases "birthday r")
    case None
    then show ?thesis using IH kr by (simp add: upcoming_spec_def map_filter_Cons)
  next
    case (Some b)
    with Cons.prems kr have "substitutable today (birthday_value b)"
      by (simp add: book_substitutable_def)
    note e = upcoming_entry_spec [OF this, of r]
    show ?thesis
    proof (cases "date_diff_days (next_occurrence today (birthday_value b)) today \<le> 7")
      case True
      with Some e kr IH show ?thesis by (simp add: upcoming_spec_def map_filter_Cons)
    next
      case False
      with Some e kr IH show ?thesis by (simp add: upcoming_spec_def map_filter_Cons)
    qed
  qed
qed

lemma get_upcoming_birthdays_spec:
  "book_substitutable today book \<Longrightarrow>
   get_upcoming_birthdays book today = Inr (upcoming_spec book today)"
  by (simp add: get_upcoming_birthdays_def upcoming_loop_spec)

lemma dec_2024: "dec 2024 = ustr ''2024''"
  by (simp add: dec.simps ustr_def)

lemma weekday_march_2024:
  "weekday \<lparr>year = 2024, month = 3, day = 10\<rparr> = 6"
  "weekday \<lparr>year = 2024, month = 3, day = 12\<rparr> = 1"
  "weekday \<lparr>year = 2024, month = 3, day = 16\<rparr> = 5"
  "weekday \<lparr>year = 2024, month = 3, day = 17\<rparr> = 6"
  "weekday \<lparr>year = 2024, month = 3, day = 18\<rparr> = 0"
  by (simp_all add: weekday_def toordinal_def days_before_year_def days_before_month_def is_leap_def)

lemma diff_march_2024:
  "date_diff_days \<lparr>year = 2024, month = 3, day = 12\<rparr> \<lparr>year = 2024, month = 3, day = 10\<rparr> = 2"
  "date_diff_days \<lparr>year = 2024, month = 3, day = 16\<rparr> \<lparr>year = 2024, month = 3, day = 10\<rparr> = 6"
  by (simp_all add: date_diff_days_def toordinal_def)

lemma monday_search_numeral:
  "monday_search (numeral k) d =
     (if weekday d = 0 then d else monday_search (pred_numeral k) (succ_day d))"
  by (simp add: numeral_eq_Suc)


lemma example_tuesday:
  "get_upcoming_birthdays
     [(n, \<lparr>name = Name n, phones = ps,
           birthday = Some (Birthday \<lparr>year = y, month = 3, day = 12\<rparr>)\<rparr>)]
     \<lparr>year = 2024, month = 3, day = 10\<rparr> = Inr [(n, ustr ''12.03.2024'')]"
proof -
  have s: "book_substitutable \<lparr>year = 2024, month = 3, day = 10\<rparr>
     [(n, \<lparr>name = Name n, phones = ps,
           birthday = Some (Birthday \<lparr>year = y, month = 3, day = 12\<rparr>)\<rparr>)]"
    by (simp add: book_substitutable_def substitutable_def occurs_in_year_def date_lt_def
        days_in_month_def)
  have o: "next_occurrence \<lparr>year = 2024, month = 3, day = 10\<rparr> \<lparr>year = y, month = 3, day = 12\<rparr> =
      \<lparr>year = 2024, month = 3, day = 12\<rparr>"
    by (simp add: next_occurrence_def date_lt_def)
  have f: "strftime \<lparr>year = 2024, month = 3, day = 12\<rparr> = ustr ''12.03.2024''"
    by (simp add: strftime_def dec2_def dec_2024) (simp add: ustr_def)
  have c: "congratulation \<lparr>year = 2024, month = 3, day = 12\<rparr> = \<lparr>year = 2024, month = 3, day = 12\<rparr>"
    by (simp add: congratulation_def weekday_march_2024)
  show ?thesis
    unfolding get_upcoming_birthdays_spec [OF s]
    by (simp add: upcoming_spec_def map_filter_Cons List.map_filter_def o diff_march_2024 c f)
qed

lemma example_saturday:
  "get_upcoming_birthdays
     [(n, \<lparr>name = Name n, phones = ps,
           birthday = Some (Birthday \<lparr>year = y, month = 3, day = 16\<rparr>)\<rparr>)]
     \<lparr>year = 2024, month = 3, day = 10\<rparr> = Inr [(n, ustr ''18.03.2024'')]"
proof -
  have s: "book_substitutable \<lparr>year = 2024, month = 3, day = 10\<rparr>
     [(n, \<lparr>name = Name n, phones = ps,
           birthday = Some (Birthday \<lparr>year = y, month = 3, day = 16\<rparr>)\<rparr>)]"
    by (simp add: book_substitutable_def substitutable_def occurs_in_year_def date_lt_def
        days_in_month_def)
  have o: "next_occurrence \<lparr>year = 2024, month = 3, day = 10\<rparr> \<lparr>year = y, month = 3, day = 16\<rparr> =
      \<lparr>year = 2024, month = 3, day = 16\<rparr>"
    by (simp add: next_occurrence_def date_lt_def)
  have s1: "succ_day \<lparr>year = 2024, month = 3, day = 16\<rparr> = \<lparr>year = 2024, month = 3, day = 17\<rparr>"
    "succ_day \<lparr>year = 2024, month = 3, day = 17\<rparr> = \<lparr>year = 2024, month = 3, day = 18\<rparr>"
    by (simp_all add: succ_day_def days_in_month_def)
  have m: "following_monday \<lparr>year = 2024, month = 3, day = 16\<rparr> = \<lparr>year = 2024, month = 3, day = 18\<rparr>"
    by (simp add: following_monday_def monday_search_numeral s1 weekday_march_2024)
  have c: "congratulation \<lparr>year = 2024, month = 3, day = 16\<rparr> = \<lparr>year = 2024, month = 3, day = 18\<rparr>"
    by (simp add: congratulation_def weekday_march_2024 m)
  have f: "strftime \<lparr>year = 2024, month = 3, day = 18\<rparr> = ustr ''18.03.2024''"
    by (simp add: strftime_def dec2_def dec_2024) (simp add: ustr_def)
  show ?thesis
    unfolding get_upcoming_birthdays_spec [OF s]
    by (simp add: upcoming_spec_def map_filter_Cons List.map_filter_def o diff_march_2024 c f)
qed

text \<open>
  Claim C1, as the code has it. For every address book and every current date such that
  the year substitutions succeed for every stored birthday (its month and day exist as a
  date in today's year and, when that date is before today, in the next year),
  \<open>get_upcoming_birthdays\<close> returns, in the order of the book, exactly the records that
  have a birthday whose next occurrence (in today's year, or in the next year if that date
  is before today) is at most 7 days from today, each with that occurrence moved to the
  following Monday when it is a Saturday or a Sunday and unchanged on a weekday, formatted
  by \<^verbatim>\<open>%d.%m.%Y\<close>. In particular, with today = 10.03.2024 a contact with birthday 12.03
  of any year is reported with 12.03.2024, and one with birthday 16.03, a Saturday in
  2024, with 18.03.2024.
\<close>

theorem upcoming_birthdays_window:
  "book_substitutable today book \<Longrightarrow>
   get_upcoming_birthdays book today = Inr (upcoming_spec book today) \<and>
   get_upcoming_birthdays
     [(n, \<lparr>name = Name n, phones = ps,
           birthday = Some (Birthday \<lparr>year = y, month = 3, day = 12\<rparr>)\<rparr>)]
     \<lparr>year = 2024, month = 3, day = 10\<rparr> = Inr [(n, ustr ''12.03.2024'')] \<and>
   get_upcoming_birthdays
     [(n, \<lparr>name = Name n, phones = ps,
           birthday = Some (Birthday \<lparr>year = y, month = 3, day = 16\<rparr>)\<rparr>)]
     \<lparr>year = 2024, month = 3, day = 10\<rparr> = Inr [(n, ustr ''18.03.2024'')]"
  using get_upcoming_birthdays_spec example_tuesday example_saturday by (intro conjI)

theorem upcoming_birthdays_window_witness:
  "book_substitutable \<lparr>year = 2024, month = 3, day = 10\<rparr>
     [(ustr ''ann'', \<lparr>name = Name (ustr ''ann''), phones = [], birthday = None\<rparr>),
      (ustr ''bob'', \<lparr>name = Name (ustr ''bob''), phones = [],
           birthday = Some (Birthday \<lparr>year = 1990, month = 3, day = 12\<rparr>)\<rparr>)] \<and>
   get_upcoming_birthdays
     [(ustr ''ann'', \<lparr>name = Name (ustr ''ann''), phones = [], birthday = None\<rparr>),
      (ustr ''bob'', \<lparr>name = Name (ustr ''bob''), phones = [],
           birthday = Some (Birthday \<lparr>year = 1990, month = 3, day = 12\<rparr>)\<rparr>)]
     \<lparr>year = 2024, month = 3, day = 10\<rparr> =
   Inr (upcoming_spec
     [(ustr ''ann'', \<lparr>name = Name (ustr ''ann''), phones = [], birthday = None\<rparr>),
      (ustr ''bob'', \<lparr>name = Name (ustr ''bob''), phones = [],
           birthday = Some (Birthday \<lparr>year = 1990, month = 3, day = 12\<rparr>)\<rparr>)]
     \<lparr>year = 2024, month = 3, day = 10\<rparr>) \<and>
   upcoming_spec
     [(ustr ''ann'', \<lparr>name = Name (ustr ''ann''), phones = [], birthday = None\<rparr>),
      (ustr ''bob'', \<lparr>name = Name (ustr ''bob''), phones = [],
           birthday = Some (Birthday \<lparr>year = 1990, month = 3, day = 12\<rparr>)\<rparr>)]
     \<lparr>year = 2024, month = 3, day = 10\<rparr> = [(ustr ''bob'', ustr ''12.03.2024'')]"
proof -
  let ?book = "[(ustr ''ann'', \<lparr>name = Name (ustr ''ann''), phones = [], birthday = None\<rparr>),
      (ustr ''bob'', \<lparr>name = Name (ustr ''bob''), phones = [],
           birthday = Some (Birthday \<lparr>year = 1990, month = 3, day = 12\<rparr>)\<rparr>)]"
  let ?today = "\<lparr>year = 2024, month = 3, day = 10\<rparr>"
  have s: "book_substitutable ?today ?book"
    by (simp add: book_substitutable_def substitutable_def occurs_in_year_def date_lt_def
        days_in_month_def)
  have o: "next_occurrence ?today \<lparr>year = 1990, month = 3, day = 12\<rparr> =
      \<lparr>year = 2024, month = 3, day = 12\<rparr>"
    by (simp add: next_occurrence_def date_lt_def)
  have f: "strftime \<lparr>year = 2024, month = 3, day = 12\<rparr> = ustr ''12.03.2024''"
    by (simp add: strftime_def dec2_def dec_2024) (simp add: ustr_def)
  have c: "congratulation \<lparr>year = 2024, month = 3, day = 12\<rparr> = \<lparr>year = 2024, month = 3, day = 12\<rparr>"
    by (simp add: congratulation_def weekday_march_2024)
  have u: "upcoming_spec ?book ?today = [(ustr ''bob'', ustr ''12.03.2024'')]"
    by (simp add: upcoming_spec_def map_filter_Cons List.map_filter_def o diff_march_2024 c f)
  from upcoming_birthdays_window [OF s, of "ustr ''bob''" "[]" 1990]
  have "get_upcoming_birthdays ?book ?today = Inr (upcoming_spec ?book ?today)"
    by (rule conjunct1)
  with s u show ?thesis by (intro conjI)
qed

text \<open>
  Without the condition on the year substitutions the claim fails: for a book with a
  birthday on 29.02.2024 and today = 01.01.2025 the function raises and returns nothing.
\<close>

theorem upcoming_birthdays_feb29_counterexample:
  "\<not> (\<forall>book today. valid_date today \<longrightarrow>
        get_upcoming_birthdays book today = Inr (upcoming_spec book today))"
proof
  assume h: "\<forall>book today. valid_date today \<longrightarrow>
        get_upcoming_birthdays book today = Inr (upcoming_spec book today)"
  have v: "valid_date \<lparr>year = 2025, month = 1, day = 1\<rparr>"
    by (simp add: valid_date_def days_in_month_def)
  from h v have "get_upcoming_birthdays
    [(ustr ''bob'', \<lparr>name = Name (ustr ''bob''), phones = [Phone (ustr ''0501234567'')],
        birthday = Some (Birthday \<lparr>year = 2024, month = 2, day = 29\<rparr>)\<rparr>)]
    \<lparr>year = 2025, month = 1, day = 1\<rparr> =
    Inr (upcoming_spec
    [(ustr ''bob'', \<lparr>name = Name (ustr ''bob''), phones = [Phone (ustr ''0501234567'')],
        birthday = Some (Birthday \<lparr>year = 2024, month = 2, day = 29\<rparr>)\<rparr>)]
    \<lparr>year = 2025, month = 1, day = 1\<rparr>)"
    by blast
  then show False by (simp only: feb29_fails sum.distinct)
qed

section \<open>Birthday: parsing and rendering\<close>

lemma ascii_digitE:
  assumes "ascii_digit c"
  obtains x where "c = 48 + x" "x < 10"
proof
  show "c = 48 + (c - 48)" "c - 48 < 10" using assms by (auto simp: ascii_digit_def)
qed

lemma ascii_digit_48: "x < 10 \<Longrightarrow> ascii_digit (48 + x)"
  by (simp add: ascii_digit_def)

lemma isdecimal_48: "x < 10 \<Longrightarrow> isdecimal_cp (48 + x)"
  by (simp add: ascii_isdecimal ascii_digit_48)

lemma decimal_value_48: "x < 10 \<Longrightarrow> decimal_value (48 + x) = x"
  by (simp add: ascii_decimal_value ascii_digit_48)

lemma rmatch_re_d:
  assumes "x1 < 10" "x2 < 10"
  shows "rmatch re_d ((48 + x1) # (48 + x2) # 46 # rest) =
     (if day_digits x1 x2 then [46 # rest] else []) @
     (if 1 \<le> x1 then [(48 + x2) # 46 # rest] else [])"
  using assms isdecimal_48 [OF assms(2)] by (auto simp: re_d_def day_digits_def)

lemma rmatch_re_m:
  assumes "x1 < 10" "x2 < 10"
  shows "rmatch re_m ((48 + x1) # (48 + x2) # 46 # rest) =
     (if month_digits x1 x2 then [46 # rest] else []) @
     (if 1 \<le> x1 then [(48 + x2) # 46 # rest] else [])"
  using assms by (auto simp: re_m_def month_digits_def)

lemma rmatch_re_Y:
  assumes "x1 < 10" "x2 < 10" "x3 < 10" "x4 < 10"
  shows "rmatch re_Y [48 + x1, 48 + x2, 48 + x3, 48 + x4] = [[]]"
  using assms by (simp add: re_Y_def isdecimal_48)

lemma rmatch_dot:
  "rmatch (Lit 46) (46 # rest) = [rest]"
  "rmatch (Lit 46) ((48 + x) # rest) = []"
  by simp_all

lemma found_strict:
  assumes "x1 < 10" "x2 < 10" "x3 < 10" "x4 < 10" "x5 < 10" "x6 < 10" "x7 < 10" "x8 < 10"
  shows "strptime_found
       [48 + x1, 48 + x2, 46, 48 + x3, 48 + x4, 46, 48 + x5, 48 + x6, 48 + x7, 48 + x8] =
     (if day_digits x1 x2 \<and> month_digits x3 x4
      then [([48 + x1, 48 + x2], [48 + x3, 48 + x4], [48 + x5, 48 + x6, 48 + x7, 48 + x8], [])]
      else [])"
  unfolding strptime_found_def
  by (simp add: rmatch_re_d [OF assms(1,2)] rmatch_re_m [OF assms(3,4)]
      rmatch_re_Y [OF assms(5-8)] rmatch_dot del: rmatch.simps)

lemma py_int_2:
  "x < 10 \<Longrightarrow> y < 10 \<Longrightarrow> py_int [48 + x, 48 + y] = x * 10 + y"
  by (simp add: py_int_def decimal_value_48)

lemma py_int_4:
  "x1 < 10 \<Longrightarrow> x2 < 10 \<Longrightarrow> x3 < 10 \<Longrightarrow> x4 < 10 \<Longrightarrow>
   py_int [48 + x1, 48 + x2, 48 + x3, 48 + x4] = ((x1 * 10 + x2) * 10 + x3) * 10 + x4"
  by (simp add: py_int_def decimal_value_48)

lemma dec2_digits: "x < 10 \<Longrightarrow> y < 10 \<Longrightarrow> dec2 (x * 10 + y) = [48 + x, 48 + y]"
  by (simp add: dec2_def)

lemma dec_digit: "n < 10 \<Longrightarrow> dec n = [48 + n]"
  by (simp add: dec.simps)

lemma dec_step: "1 \<le> a \<Longrightarrow> b < 10 \<Longrightarrow> dec (a * 10 + b) = dec a @ [48 + b]"
  by (subst dec.simps) simp

lemma dec_4digits:
  assumes "1 \<le> x1" "x1 < 10" "x2 < 10" "x3 < 10" "x4 < 10"
  shows "dec (((x1 * 10 + x2) * 10 + x3) * 10 + x4) = [48 + x1, 48 + x2, 48 + x3, 48 + x4]"
proof -
  have p2: "1 \<le> x1 * 10 + x2" and p3: "1 \<le> (x1 * 10 + x2) * 10 + x3"
    using assms(1) by simp_all
  have "dec (((x1 * 10 + x2) * 10 + x3) * 10 + x4) = dec ((x1 * 10 + x2) * 10 + x3) @ [48 + x4]"
    using p3 assms(5) by (rule dec_step)
  also have "dec ((x1 * 10 + x2) * 10 + x3) = dec (x1 * 10 + x2) @ [48 + x3]"
    using p2 assms(4) by (rule dec_step)
  also have "dec (x1 * 10 + x2) = dec x1 @ [48 + x2]"
    using assms(1,3) by (rule dec_step)
  also have "dec x1 = [48 + x1]"
    using assms(2) by (rule dec_digit)
  finally show ?thesis by simp
qed

lemma new_date_Inr:
  "new_date y m d = Inr dt \<Longrightarrow> dt = \<lparr>year = y, month = m, day = d\<rparr> \<and> valid_date dt"
  by (auto simp: new_date_def valid_date_def split: if_splits)

lemma new_date_valid:
  "valid_date dt \<Longrightarrow> new_date (year dt) (month dt) (day dt) = Inr dt"
  by (simp add: new_date_def valid_date_def)

lemma strptime_valid: "strptime s = Some dt \<Longrightarrow> valid_date dt"
  by (auto simp: strptime_def dest: new_date_Inr split: list.splits if_splits sum.splits prod.splits)

lemma strptime_strict:
  assumes "x1 < 10" "x2 < 10" "x3 < 10" "x4 < 10" "x5 < 10" "x6 < 10" "x7 < 10" "x8 < 10"
  shows "strptime [48 + x1, 48 + x2, 46, 48 + x3, 48 + x4, 46, 48 + x5, 48 + x6, 48 + x7, 48 + x8] =
     (if day_digits x1 x2 \<and> month_digits x3 x4
      then (case new_date (((x5 * 10 + x6) * 10 + x7) * 10 + x8) (x3 * 10 + x4) (x1 * 10 + x2) of
              Inl e \<Rightarrow> None | Inr dt \<Rightarrow> Some dt)
      else None)"
  unfolding strptime_def found_strict [OF assms]
  by (simp add: py_int_2 py_int_4 assms)

lemma div10_lt: "(n::nat) < 100 \<Longrightarrow> n div 10 < 10"
  by simp

lemma day_pattern: "1 \<le> (D::nat) \<Longrightarrow> D \<le> 31 \<Longrightarrow> day_digits (D div 10) (D mod 10)"
  unfolding day_digits_def by presburger

lemma month_pattern: "1 \<le> (M::nat) \<Longrightarrow> M \<le> 12 \<Longrightarrow> month_digits (M div 10) (M mod 10)"
  unfolding month_digits_def by presburger

lemma days_in_month_le: "days_in_month y m \<le> 31"
  by (simp add: days_in_month_def)

lemma parse_render:
  assumes v: "valid_date dt" and y: "1000 \<le> year dt"
  shows "strptime (strftime dt) = Some dt"
proof -
  define D M Y where "D = day dt" and "M = month dt" and "Y = year dt"
  from v have b: "1 \<le> D" "D \<le> 31" "1 \<le> M" "M \<le> 12" "Y \<le> 9999"
    using days_in_month_le [of "year dt" "month dt"] by (simp_all add: valid_date_def D_def M_def Y_def)
  define x1 x2 x3 x4 where "x1 = D div 10" and "x2 = D mod 10" and "x3 = M div 10" and "x4 = M mod 10"
  define q1 q2 where "q1 = Y div 10" and "q2 = q1 div 10"
  define x5 x6 x7 x8 where "x5 = q2 div 10" and "x6 = q2 mod 10" and "x7 = q1 mod 10"
    and "x8 = Y mod 10"
  have lt: "x1 < 10" "x2 < 10" "x3 < 10" "x4 < 10" "x6 < 10" "x7 < 10" "x8 < 10"
    using b by (simp_all add: x1_def x2_def x3_def x4_def x6_def x7_def x8_def)
  have Deq: "x1 * 10 + x2 = D" and Meq: "x3 * 10 + x4 = M"
    by (simp_all add: x1_def x2_def x3_def x4_def)
  have q2eq: "x5 * 10 + x6 = q2" and q1eq: "q2 * 10 + x7 = q1" and Yeq0: "q1 * 10 + x8 = Y"
    by (simp_all add: x5_def x6_def x7_def x8_def q1_def q2_def)
  have Yeq: "((x5 * 10 + x6) * 10 + x7) * 10 + x8 = Y"
    by (simp only: q2eq q1eq Yeq0)
  have x5: "x5 = Y div 1000"
    by (simp add: x5_def q2_def q1_def div_mult2_eq)
  have x5b: "1 \<le> x5" "x5 < 10"
    using y b(5) unfolding x5 Y_def [symmetric] by simp_all
  have sf: "strftime dt =
      [48 + x1, 48 + x2, 46, 48 + x3, 48 + x4, 46, 48 + x5, 48 + x6, 48 + x7, 48 + x8]"
  proof -
    have "strftime dt = dec2 (x1 * 10 + x2) @ [46] @ dec2 (x3 * 10 + x4) @ [46] @
        dec (((x5 * 10 + x6) * 10 + x7) * 10 + x8)"
      unfolding Deq Meq Yeq by (simp only: strftime_def D_def M_def Y_def)
    then show ?thesis
      unfolding dec2_digits [OF lt(1,2)] dec2_digits [OF lt(3,4)]
        dec_4digits [OF x5b lt(5,6,7)]
      by simp
  qed
  have pat: "day_digits x1 x2 \<and> month_digits x3 x4"
    unfolding x1_def x2_def x3_def x4_def using b by (simp add: day_pattern month_pattern)
  have nd: "new_date Y M D = Inr dt"
    unfolding D_def M_def Y_def using v by (rule new_date_valid)
  show ?thesis
    unfolding sf strptime_strict [OF lt(1,2,3,4) x5b(2) lt(5,6,7)] Deq Meq Yeq
    using pat nd by simp
qed

lemma lead_digit:
  fixes x5 x6 x7 x8 :: nat
  assumes "1000 \<le> ((x5 * 10 + x6) * 10 + x7) * 10 + x8" "x6 < 10" "x7 < 10" "x8 < 10"
  shows "1 \<le> x5"
  using assms by (cases x5) simp_all

lemma render_parse_strict:
  assumes ok: "strptime [d1, d2, 46, m1, m2, 46, y1, y2, y3, y4] = Some dt"
    and dig: "ascii_digit d1" "ascii_digit d2" "ascii_digit m1" "ascii_digit m2"
      "ascii_digit y1" "ascii_digit y2" "ascii_digit y3" "ascii_digit y4"
    and yr: "1000 \<le> year dt"
  shows "strftime dt = [d1, d2, 46, m1, m2, 46, y1, y2, y3, y4]"
proof -
  from dig(1) obtain x1 where x1: "d1 = 48 + x1" "x1 < 10" by (rule ascii_digitE)
  from dig(2) obtain x2 where x2: "d2 = 48 + x2" "x2 < 10" by (rule ascii_digitE)
  from dig(3) obtain x3 where x3: "m1 = 48 + x3" "x3 < 10" by (rule ascii_digitE)
  from dig(4) obtain x4 where x4: "m2 = 48 + x4" "x4 < 10" by (rule ascii_digitE)
  from dig(5) obtain x5 where x5: "y1 = 48 + x5" "x5 < 10" by (rule ascii_digitE)
  from dig(6) obtain x6 where x6: "y2 = 48 + x6" "x6 < 10" by (rule ascii_digitE)
  from dig(7) obtain x7 where x7: "y3 = 48 + x7" "x7 < 10" by (rule ascii_digitE)
  from dig(8) obtain x8 where x8: "y4 = 48 + x8" "x8 < 10" by (rule ascii_digitE)
  note st = strptime_strict [OF x1(2) x2(2) x3(2) x4(2) x5(2) x6(2) x7(2) x8(2)]
  from ok have "new_date (((x5 * 10 + x6) * 10 + x7) * 10 + x8) (x3 * 10 + x4) (x1 * 10 + x2) = Inr dt"
    unfolding x1(1) x2(1) x3(1) x4(1) x5(1) x6(1) x7(1) x8(1) st
    by (simp split: if_splits sum.splits)
  then have dt: "dt = \<lparr>year = ((x5 * 10 + x6) * 10 + x7) * 10 + x8, month = x3 * 10 + x4,
      day = x1 * 10 + x2\<rparr>"
    by (simp add: new_date_Inr)
  have "year dt = ((x5 * 10 + x6) * 10 + x7) * 10 + x8"
    unfolding dt by (simp only: date.select_convs)
  with yr have "1000 \<le> ((x5 * 10 + x6) * 10 + x7) * 10 + x8" by (simp only:)
  then have l: "1 \<le> x5" using x6(2) x7(2) x8(2) by (rule lead_digit)
  have f: "strftime dt = dec2 (x1 * 10 + x2) @ [46] @ dec2 (x3 * 10 + x4) @ [46] @
      dec (((x5 * 10 + x6) * 10 + x7) * 10 + x8)"
    unfolding dt strftime_def by (simp only: date.select_convs)
  show ?thesis
    unfolding f dec2_digits [OF x1(2) x2(2)] dec2_digits [OF x3(2) x4(2)]
      dec_4digits [OF l x5(2) x6(2) x7(2) x8(2)] x1(1) x2(1) x3(1) x4(1) x5(1) x6(1) x7(1) x8(1)
    by simp
qed

lemma Birthday_init_Inr:
  "Birthday_init s = Inr b \<longleftrightarrow> strptime s = Some (birthday_value b)"
  by (cases b) (auto simp: Birthday_init_def split: option.splits)

lemma render_parse_shape:
  assumes "dd_mm_yyyy s" "strptime s = Some dt" "1000 \<le> year dt"
  shows "strftime dt = s"
  using assms(1)
proof (cases rule: dd_mm_yyyy.elims(2))
  case (1 d1 d2 p m1 m2 q y1 y2 y3 y4)
  then have s: "s = [d1, d2, 46, m1, m2, 46, y1, y2, y3, y4]"
    and dig: "ascii_digit d1" "ascii_digit d2" "ascii_digit m1" "ascii_digit m2"
      "ascii_digit y1" "ascii_digit y2" "ascii_digit y3" "ascii_digit y4"
    by simp_all
  from assms(2) have "strptime [d1, d2, 46, m1, m2, 46, y1, y2, y3, y4] = Some dt"
    by (simp only: s)
  then have "strftime dt = [d1, d2, 46, m1, m2, 46, y1, y2, y3, y4]"
    using dig assms(3) by (rule render_parse_strict)
  then show ?thesis by (simp only: s)
qed


text \<open>
  Claim C4, as the code has it. For every string \<open>s\<close> of the shape \<^verbatim>\<open>DD.MM.YYYY\<close> that
  the Birthday parser accepts and whose year is at least 1000, rendering the parsed
  Birthday gives \<open>s\<close> back; and for every constructed Birthday \<open>b\<close> whose year is at
  least 1000, parsing its rendered form gives \<open>b\<close> back.
\<close>

theorem birthday_round_trip:
  "(dd_mm_yyyy s \<and> Birthday_init s = Inr b \<and> 1000 \<le> year (birthday_value b) \<longrightarrow>
      Birthday_str b = s) \<and>
   (Birthday_init s' = Inr b' \<and> 1000 \<le> year (birthday_value b') \<longrightarrow>
      Birthday_init (Birthday_str b') = Inr b')"
proof (intro conjI impI)
  assume a: "dd_mm_yyyy s \<and> Birthday_init s = Inr b \<and> 1000 \<le> year (birthday_value b)"
  then have "strptime s = Some (birthday_value b)"
    by (simp add: Birthday_init_Inr)
  with a have "strftime (birthday_value b) = s"
    by (simp add: render_parse_shape)
  then show "Birthday_str b = s"
    by (simp add: Birthday_str_def)
next
  assume a: "Birthday_init s' = Inr b' \<and> 1000 \<le> year (birthday_value b')"
  then have "strptime s' = Some (birthday_value b')" by (simp add: Birthday_init_Inr)
  then have "valid_date (birthday_value b')" by (rule strptime_valid)
  with a have "strptime (strftime (birthday_value b')) = Some (birthday_value b')"
    by (simp add: parse_render)
  then show "Birthday_init (Birthday_str b') = Inr b'"
    by (simp add: Birthday_init_Inr Birthday_str_def)
qed

lemma parse_long: "strptime (ustr ''01.03.2024'') = Some \<lparr>year = 2024, month = 3, day = 1\<rparr>"
proof -
  have "strptime [48 + 0, 48 + 1, 46, 48 + 0, 48 + 3, 46, 48 + 2, 48 + 0, 48 + 2, 48 + 4] =
      Some \<lparr>year = 2024, month = 3, day = 1\<rparr>"
    by (subst strptime_strict)
      (simp_all add: day_digits_def month_digits_def new_date_def days_in_month_def)
  then show ?thesis by (simp add: ustr_def)
qed

theorem birthday_round_trip_witness:
  "dd_mm_yyyy (ustr ''01.03.2024'') \<and>
   Birthday_init (ustr ''01.03.2024'') = Inr (Birthday \<lparr>year = 2024, month = 3, day = 1\<rparr>) \<and>
   Birthday_str (Birthday \<lparr>year = 2024, month = 3, day = 1\<rparr>) = ustr ''01.03.2024'' \<and>
   Birthday_init (Birthday_str (Birthday \<lparr>year = 2024, month = 3, day = 1\<rparr>)) =
     Inr (Birthday \<lparr>year = 2024, month = 3, day = 1\<rparr>)"
proof -
  have i: "Birthday_init (ustr ''01.03.2024'') = Inr (Birthday \<lparr>year = 2024, month = 3, day = 1\<rparr>)"
    by (simp add: Birthday_init_def parse_long)
  have d: "dd_mm_yyyy (ustr ''01.03.2024'')"
    by (simp add: ustr_def ascii_digit_def)
  from birthday_round_trip [of "ustr ''01.03.2024''" "Birthday \<lparr>year = 2024, month = 3, day = 1\<rparr>"
      "ustr ''01.03.2024''" "Birthday \<lparr>year = 2024, month = 3, day = 1\<rparr>"] i d
  have "Birthday_str (Birthday \<lparr>year = 2024, month = 3, day = 1\<rparr>) = ustr ''01.03.2024'' \<and>
      Birthday_init (Birthday_str (Birthday \<lparr>year = 2024, month = 3, day = 1\<rparr>)) =
        Inr (Birthday \<lparr>year = 2024, month = 3, day = 1\<rparr>)"
    by simp
  with i d show ?thesis by simp
qed

lemma parse_0999: "strptime (ustr ''01.03.0999'') = Some \<lparr>year = 999, month = 3, day = 1\<rparr>"
proof -
  have "strptime [48 + 0, 48 + 1, 46, 48 + 0, 48 + 3, 46, 48 + 0, 48 + 9, 48 + 9, 48 + 9] =
      Some \<lparr>year = 999, month = 3, day = 1\<rparr>"
    by (subst strptime_strict)
      (simp_all add: day_digits_def month_digits_def new_date_def days_in_month_def)
  then show ?thesis by (simp add: ustr_def)
qed

lemma dec_999: "dec 999 = ustr ''999''"
  by (simp add: dec.simps ustr_def)

lemma render_999: "strftime \<lparr>year = 999, month = 3, day = 1\<rparr> = ustr ''01.03.999''"
  by (simp add: strftime_def dec2_def dec_999) (simp add: ustr_def)

lemma found_999: "strptime_found (ustr ''01.03.999'') = []"
  by (simp add: strptime_found_def ustr_def re_d_def re_m_def re_Y_def ascii_isdecimal ascii_digit_def)

lemma parse_999: "strptime (ustr ''01.03.999'') = None"
  by (simp add: strptime_def found_999)

text \<open>
  The claim as stated fails inside its own domain, in both halves. \<^verbatim>\<open>01.03.0999\<close> has
  the shape \<^verbatim>\<open>DD.MM.YYYY\<close> and is accepted; its Birthday renders as \<^verbatim>\<open>01.03.999\<close>, since
  \<^verbatim>\<open>%Y\<close> does not zero-fill the year, and this rendered form is not accepted, since the
  parser needs four digits of year.
\<close>

theorem birthday_round_trip_counterexample:
  "\<not> (\<forall>s b. dd_mm_yyyy s \<and> Birthday_init s = Inr b \<longrightarrow> Birthday_str b = s) \<and>
   \<not> (\<forall>s b. Birthday_init s = Inr b \<longrightarrow> Birthday_init (Birthday_str b) = Inr b)"
proof (intro conjI notI)
  have i: "Birthday_init (ustr ''01.03.0999'') = Inr (Birthday \<lparr>year = 999, month = 3, day = 1\<rparr>)"
    by (simp add: Birthday_init_def parse_0999)
  have d: "dd_mm_yyyy (ustr ''01.03.0999'')"
    by (simp add: ustr_def ascii_digit_def)
  have r: "Birthday_str (Birthday \<lparr>year = 999, month = 3, day = 1\<rparr>) = ustr ''01.03.999''"
    by (simp only: Birthday_str_def Birthday.sel render_999)
  {
    assume "\<forall>s b. dd_mm_yyyy s \<and> Birthday_init s = Inr b \<longrightarrow> Birthday_str b = s"
    with i d have "Birthday_str (Birthday \<lparr>year = 999, month = 3, day = 1\<rparr>) = ustr ''01.03.0999''"
      by blast
    then have "ustr ''01.03.999'' = ustr ''01.03.0999''" by (simp only: r)
    then show False by (simp add: ustr_def)
  }
  {
    assume "\<forall>s b. Birthday_init s = Inr b \<longrightarrow> Birthday_init (Birthday_str b) = Inr b"
    with i have "Birthday_init (Birthday_str (Birthday \<lparr>year = 999, month = 3, day = 1\<rparr>)) =
        Inr (Birthday \<lparr>year = 999, month = 3, day = 1\<rparr>)"
      by blast
    then have "Birthday_init (ustr ''01.03.999'') = Inr (Birthday \<lparr>year = 999, month = 3, day = 1\<rparr>)"
      by (simp only: r)
    then show False by (simp add: Birthday_init_def parse_999)
  }
qed

text \<open>
  The bound on the year is exact. Below 1000 the rendered year has fewer than four
  digits, so the rendered form of a parsed string of the shape \<^verbatim>\<open>DD.MM.YYYY\<close> is shorter
  than the string (\<open>render_below_1000\<close>), and no rendered form is accepted by the parser
  (\<open>parse_render_below_1000\<close>).
\<close>

lemma dec_length_below_1000: "y < 1000 \<Longrightarrow> length (dec y) \<le> 3"
proof -
  assume y: "y < 1000"
  have a: "\<And>n. n < 10 \<Longrightarrow> length (dec n) = 1" by (simp add: dec_digit)
  have b: "\<And>n. n < 100 \<Longrightarrow> length (dec n) \<le> 2"
    by (subst dec.simps) (simp add: a)
  have "y div 10 < 100" using y by simp
  then have "length (dec (y div 10)) \<le> 2" by (rule b)
  then show ?thesis by (subst dec.simps) (simp add: a)
qed

lemma strftime_length: "length (strftime dt) = 6 + length (dec (year dt))"
  by (simp add: strftime_def dec2_def)

lemma dd_mm_yyyy_length: "dd_mm_yyyy s \<Longrightarrow> length s = 10"
  by (erule dd_mm_yyyy.elims(2)) simp

lemma render_below_1000:
  assumes "dd_mm_yyyy s" "year dt < 1000"
  shows "strftime dt \<noteq> s"
proof
  assume "strftime dt = s"
  then have "length (strftime dt) = 10" using assms(1) by (simp add: dd_mm_yyyy_length)
  moreover have "length (dec (year dt)) \<le> 3" using assms(2) by (rule dec_length_below_1000)
  ultimately show False by (simp add: strftime_length)
qed

lemma rmatch_re_Y_short: "length r < 4 \<Longrightarrow> rmatch re_Y r = []"
  by (auto simp: re_Y_def split: list.splits)

lemma found_short_year:
  assumes "x1 < 10" "x2 < 10" "x3 < 10" "x4 < 10" "length r < 4"
  shows "strptime_found ((48 + x1) # (48 + x2) # 46 # (48 + x3) # (48 + x4) # 46 # r) = []"
  unfolding strptime_found_def
  by (simp add: rmatch_re_d [OF assms(1,2)] rmatch_re_m [OF assms(3,4)]
      rmatch_re_Y_short [OF assms(5)] rmatch_dot del: rmatch.simps)

lemma parse_render_below_1000:
  assumes "year dt < 1000"
  shows "strptime (strftime dt) = None"
proof -
  have l: "length (dec (year dt)) < 4"
    using dec_length_below_1000 [OF assms] by simp
  have "strftime dt = (48 + day dt div 10 mod 10) # (48 + day dt mod 10) # 46 #
      (48 + month dt div 10 mod 10) # (48 + month dt mod 10) # 46 # dec (year dt)"
    by (simp add: strftime_def dec2_def)
  moreover have "strptime_found ((48 + day dt div 10 mod 10) # (48 + day dt mod 10) # 46 #
      (48 + month dt div 10 mod 10) # (48 + month dt mod 10) # 46 # dec (year dt)) = []"
    by (rule found_short_year) (simp_all add: l)
  ultimately show ?thesis by (simp add: strptime_def)
qed

end
